theory Spec2Isabelle
  imports Complex_Main
begin

section \<open>Pricing calculator (pricing/calculator.ts, pricing/types.ts)\<close>

text \<open>
  JavaScript numbers are modelled as \<open>real\<close>: the properties below are about which
  branch is taken and which arithmetic expression is evaluated, not about rounding.
  An optional field \<open>f?: number\<close> is a \<open>real option\<close>, \<open>None\<close> being \<open>undefined\<close>.
\<close>

record SimplifiedPricing =
  model :: string
  inputCostPerToken :: real
  outputCostPerToken :: real
  inputCostPerTokenAbove200k :: "real option"
  outputCostPerTokenAbove200k :: "real option"
  maxInputTokens :: "real option"
  maxOutputTokens :: "real option"

record CostCalculation =
  inputCost :: real
  outputCost :: real
  totalCost :: real
  inputTokens :: real
  outputTokens :: real
  cmodel :: string
  tieredPricingApplied :: bool

definition TIERED_PRICING_THRESHOLD :: real where
  "TIERED_PRICING_THRESHOLD = 200000"

text \<open>
  \<open>calculateCost\<close> guards each tiered branch with
  \<^verbatim>\<open>pricing.inputCostPerTokenAbove200k && inputTokens > THRESHOLD\<close>: the left operand is
  tested for truthiness, so an absent rate and a rate of \<open>0\<close> both select the flat branch.
\<close>

definition calculateCost :: "SimplifiedPricing \<Rightarrow> real \<Rightarrow> real \<Rightarrow> CostCalculation" where
  "calculateCost pricing inTok outTok =
     (let (inCost, inTiered) =
            (case inputCostPerTokenAbove200k pricing of
               Some rate \<Rightarrow>
                 if rate \<noteq> 0 \<and> inTok > TIERED_PRICING_THRESHOLD
                 then (TIERED_PRICING_THRESHOLD * inputCostPerToken pricing
                         + (inTok - TIERED_PRICING_THRESHOLD) * rate, True)
                 else (inTok * inputCostPerToken pricing, False)
             | None \<Rightarrow> (inTok * inputCostPerToken pricing, False));
          (outCost, outTiered) =
            (case outputCostPerTokenAbove200k pricing of
               Some rate \<Rightarrow>
                 if rate \<noteq> 0 \<and> outTok > TIERED_PRICING_THRESHOLD
                 then (TIERED_PRICING_THRESHOLD * outputCostPerToken pricing
                         + (outTok - TIERED_PRICING_THRESHOLD) * rate, True)
                 else (outTok * outputCostPerToken pricing, False)
             | None \<Rightarrow> (outTok * outputCostPerToken pricing, False))
      in \<lparr> inputCost = inCost, outputCost = outCost, totalCost = inCost + outCost,
           inputTokens = inTok, outputTokens = outTok, cmodel = model pricing,
           tieredPricingApplied = (inTiered \<or> outTiered) \<rparr>)"

text \<open>The tiered branch of one direction fires: the rate is present, non-zero, and the
  count is strictly above the threshold.\<close>

definition tierFires :: "real option \<Rightarrow> real \<Rightarrow> bool" where
  "tierFires tier n = (case tier of None \<Rightarrow> False | Some a \<Rightarrow> a \<noteq> 0 \<and> n > 200000)"

definition tierCost :: "real \<Rightarrow> real option \<Rightarrow> real \<Rightarrow> real" where
  "tierCost base tier n = 200000 * base + (n - 200000) * (case tier of None \<Rightarrow> 0 | Some a \<Rightarrow> a)"

subsection \<open>JavaScript strings\<close>

text \<open>
  A string is the list of the bytes of its UTF-8 encoding, so an ASCII character is one
  \<open>char\<close>. On a string of ASCII characters \<open>toLowerCase\<close> maps the letters \<open>A\<close> to \<open>Z\<close>; on any
  other string it is the parameter \<open>u\<close>, the lower-casing of Unicode that
  \<open>String.prototype.toLowerCase\<close> performs. \<open>jsLength\<close> is \<open>s.length\<close>, the number of UTF-16
  code units: one for each character, two for a character encoded in four bytes.
\<close>

definition isAscii :: "char \<Rightarrow> bool" where
  "isAscii c = (\<not> digit7 c)"

definition toLowerChar :: "char \<Rightarrow> char" where
  "toLowerChar c =
     (case map_of (zip ''ABCDEFGHIJKLMNOPQRSTUVWXYZ'' ''abcdefghijklmnopqrstuvwxyz'') c of
        Some d \<Rightarrow> d | None \<Rightarrow> c)"

definition toLowerCase :: "(string \<Rightarrow> string) \<Rightarrow> string \<Rightarrow> string" where
  "toLowerCase u s = (if list_all isAscii s then map toLowerChar s else u s)"

definition jsLength :: "string \<Rightarrow> nat" where
  "jsLength s =
     length (filter (\<lambda>c. \<not> (digit7 c \<and> \<not> digit6 c)) s)
       + length (filter (\<lambda>c. digit7 c \<and> digit6 c \<and> digit5 c \<and> digit4 c) s)"

fun startsWith :: "string \<Rightarrow> string \<Rightarrow> bool" where
  "startsWith s [] = True"
| "startsWith [] (p # ps) = False"
| "startsWith (c # cs) (p # ps) = (c = p \<and> startsWith cs ps)"

fun includes_str :: "string \<Rightarrow> string \<Rightarrow> bool" where
  "includes_str [] pat = startsWith [] pat"
| "includes_str (c # cs) pat = (startsWith (c # cs) pat \<or> includes_str cs pat)"

subsection \<open>Property lookup on a plain object\<close>

text \<open>
  \<open>obj[key]\<close> on an object literal or a parsed JSON object finds the object's own
  properties and, failing that, the members inherited from \<open>Object.prototype\<close>. \<open>Own v\<close> is
  an own value, \<open>Inherited k\<close> the inherited member named \<open>k\<close> (a function, or the prototype
  itself for \<open>__proto__\<close>); \<open>None\<close> is \<open>undefined\<close>.
\<close>

datatype 'a property = Own 'a | Inherited string

definition objectPrototypeNames :: "string list" where
  "objectPrototypeNames =
     [''constructor'', ''__defineGetter__'', ''__defineSetter__'', ''hasOwnProperty'',
      ''__lookupGetter__'', ''__lookupSetter__'', ''isPrototypeOf'', ''propertyIsEnumerable'',
      ''toString'', ''valueOf'', ''__proto__'', ''toLocaleString'']"

definition objectGet :: "(string \<times> 'a) list \<Rightarrow> string \<Rightarrow> 'a property option" where
  "objectGet entries key =
     (case map_of entries key of
        Some v \<Rightarrow> Some (Own v)
      | None \<Rightarrow> if key \<in> set objectPrototypeNames then Some (Inherited key) else None)"

text \<open>The property key a value is converted to when it is used as an index: a string is
  its own key, an inherited member is its \<open>String\<close> conversion.\<close>

definition propertyKey :: "string property \<Rightarrow> string" where
  "propertyKey v =
     (case v of
        Own s \<Rightarrow> s
      | Inherited k \<Rightarrow>
          if k = ''__proto__'' then ''[object Object]''
          else if k = ''constructor'' then ''function Object() { [native code] }''
          else ''function '' @ k @ ''() { [native code] }'')"

subsection \<open>Model-name normalization\<close>

text \<open>The table of \<open>normalizeModelName\<close>, in the insertion order that \<open>Object.entries\<close>
  iterates.\<close>

definition normalizations :: "(string \<times> string) list" where
  "normalizations =
     [(''gpt-5'', ''gpt-5''),
      (''o3'', ''o3''),
      (''gpt-4o'', ''gpt-4o''),
      (''gpt-4o-mini'', ''gpt-4o-mini''),
      (''gpt-4-turbo'', ''gpt-4-turbo''),
      (''gpt-4'', ''gpt-4''),
      (''gpt-3.5-turbo'', ''gpt-3.5-turbo''),
      (''gemini-2.5-pro'', ''gemini-2.5-pro''),
      (''gemini-2.0-flash'', ''gemini-2.0-flash''),
      (''gemini-2.0-flash-exp'', ''gemini-2.0-flash''),
      (''gemini-1.5-pro'', ''gemini-1.5-pro''),
      (''gemini-1.5-flash'', ''gemini-1.5-flash''),
      (''gemini-pro'', ''gemini-1.5-pro''),
      (''claude-3-5-sonnet'', ''claude-3.5-sonnet''),
      (''claude-3-5-sonnet-20241022'', ''claude-3.5-sonnet''),
      (''claude-3-opus'', ''claude-3-opus''),
      (''claude-3-sonnet'', ''claude-3-sonnet''),
      (''claude-3-haiku'', ''claude-3-haiku''),
      (''grok-4'', ''grok-4''),
      (''grok-3'', ''grok-3''),
      (''grok-2'', ''grok-2''),
      (''grok-1'', ''grok-1''),
      (''gpt-5-azure'', ''gpt-5''),
      (''o3-azure'', ''o3'')]"

text \<open>
  \<open>normalizeModelName\<close>: \<^verbatim>\<open>normalizations[model.toLowerCase()]\<close>, returned when truthy (every
  value of the table is a non-empty string, every inherited member is truthy); otherwise
  the replacement of the first table entry whose pattern occurs in the lower-cased name;
  otherwise the name unchanged. The result is a string (\<open>Own\<close>) or, for a name that
  lower-cases to \<open>constructor\<close> or \<open>__proto__\<close>, an inherited member.
\<close>

definition normalizeModelName :: "(string \<Rightarrow> string) \<Rightarrow> string \<Rightarrow> string property" where
  "normalizeModelName u m =
     (case objectGet normalizations (toLowerCase u m) of
        Some normalized \<Rightarrow> normalized
      | None \<Rightarrow>
          (case find (\<lambda>(pattern, replacement).
                        includes_str (toLowerCase u m) (toLowerCase u pattern))
                  normalizations of
             Some (pattern, replacement) \<Rightarrow> Own replacement
           | None \<Rightarrow> Own m))"

subsection \<open>Pricing service (pricing/service.ts)\<close>

text \<open>A catalog entry as the schema admits it: every field is optional.\<close>

record ModelPricing =
  max_tokens :: "real option"
  max_input_tokens :: "real option"
  max_output_tokens :: "real option"
  input_cost_per_token :: "real option"
  output_cost_per_token :: "real option"
  input_cost_per_token_above_200k_tokens :: "real option"
  output_cost_per_token_above_200k_tokens :: "real option"

text \<open>The catalog is a JavaScript object with the prototype \<open>Object.prototype\<close>, as
  \<open>JSON.parse\<close> and an object literal make it; the association list keeps the key order
  that \<open>Object.entries\<close> iterates.\<close>

type_synonym PricingData = "(string \<times> ModelPricing) list"

text \<open>\<^verbatim>\<open>a || b\<close> on optional numbers: \<open>a\<close> if it is defined and non-zero, else \<open>b\<close>.\<close>

definition orNum :: "real option \<Rightarrow> real option \<Rightarrow> real option" where
  "orNum a b = (case a of Some x \<Rightarrow> if x \<noteq> 0 then Some x else b | None \<Rightarrow> b)"

text \<open>
  What \<open>simplifyPricing\<close> returns at run time: the fields copied, a base rate possibly
  \<open>undefined\<close> in spite of the declared type.
\<close>

record RuntimePricing =
  rp_model :: string
  rp_inputCostPerToken :: "real option"
  rp_outputCostPerToken :: "real option"
  rp_inputCostPerTokenAbove200k :: "real option"
  rp_outputCostPerTokenAbove200k :: "real option"
  rp_maxInputTokens :: "real option"
  rp_maxOutputTokens :: "real option"

definition simplifyPricing :: "string \<Rightarrow> ModelPricing \<Rightarrow> RuntimePricing" where
  "simplifyPricing m pricing =
     \<lparr> rp_model = m,
       rp_inputCostPerToken = input_cost_per_token pricing,
       rp_outputCostPerToken = output_cost_per_token pricing,
       rp_inputCostPerTokenAbove200k = input_cost_per_token_above_200k_tokens pricing,
       rp_outputCostPerTokenAbove200k = output_cost_per_token_above_200k_tokens pricing,
       rp_maxInputTokens = orNum (max_input_tokens pricing) (max_tokens pricing),
       rp_maxOutputTokens = orNum (max_output_tokens pricing) (max_tokens pricing) \<rparr>"

text \<open>The object read at its declared type, \<open>0\<close> standing in for an undefined base rate.\<close>

definition asTyped :: "RuntimePricing \<Rightarrow> SimplifiedPricing" where
  "asTyped rp =
     \<lparr> model = rp_model rp,
       inputCostPerToken = (case rp_inputCostPerToken rp of Some r \<Rightarrow> r | None \<Rightarrow> 0),
       outputCostPerToken = (case rp_outputCostPerToken rp of Some r \<Rightarrow> r | None \<Rightarrow> 0),
       inputCostPerTokenAbove200k = rp_inputCostPerTokenAbove200k rp,
       outputCostPerTokenAbove200k = rp_outputCostPerTokenAbove200k rp,
       maxInputTokens = rp_maxInputTokens rp,
       maxOutputTokens = rp_maxOutputTokens rp \<rparr>"

text \<open>A cost calculation whose costs may be \<open>NaN\<close>, written \<open>None\<close>.\<close>

record ServiceCost =
  s_inputCost :: "real option"
  s_outputCost :: "real option"
  s_totalCost :: "real option"
  s_inputTokens :: real
  s_outputTokens :: real
  s_model :: string
  s_tieredPricingApplied :: bool

text \<open>
  \<open>calculateCostFromPricing\<close>: \<open>calculateCost\<close> on the simplified object. Which branch is
  taken does not depend on the base rates; a cost computed with an undefined base rate is
  \<open>NaN\<close>, and so is the sum then.
\<close>

definition calculateCostFromPricing ::
    "string \<Rightarrow> ModelPricing \<Rightarrow> real \<Rightarrow> real \<Rightarrow> ServiceCost" where
  "calculateCostFromPricing m pricing inTok outTok =
     (let rp = simplifyPricing m pricing;
          c = calculateCost (asTyped rp) inTok outTok;
          inCost = (case rp_inputCostPerToken rp of Some r \<Rightarrow> Some (inputCost c) | None \<Rightarrow> None);
          outCost = (case rp_outputCostPerToken rp of Some r \<Rightarrow> Some (outputCost c) | None \<Rightarrow> None)
      in \<lparr> s_inputCost = inCost, s_outputCost = outCost,
           s_totalCost = (case (inCost, outCost) of
                            (Some a, Some b) \<Rightarrow> Some (a + b)
                          | _ \<Rightarrow> None),
           s_inputTokens = inTok, s_outputTokens = outTok, s_model = cmodel c,
           s_tieredPricingApplied = tieredPricingApplied c \<rparr>)"

text \<open>
  \<open>getModelPricing\<close>. Its first argument is the outcome of \<open>await this.getPricingData()\<close>:
  \<open>Inl\<close> an error message when that call throws (the \<open>catch\<close> returns \<open>null\<close>), \<open>Inr\<close> the
  catalog. \<^verbatim>\<open>pricingData[normalizedModel]\<close> is returned when truthy, be it an entry or an
  inherited member. Otherwise the loop over the entries compares
  \<^verbatim>\<open>key.toLowerCase() === normalizedModel.toLowerCase()\<close>; when the normalized name is not a
  string this throws on the first entry and the \<open>catch\<close> returns \<open>null\<close>, as the end of the
  function does for an empty catalog.
\<close>

definition getModelPricing ::
    "(string \<Rightarrow> string) \<Rightarrow> string + PricingData \<Rightarrow> string \<Rightarrow> ModelPricing property option" where
  "getModelPricing u pricingData m =
     (case pricingData of
        Inl err \<Rightarrow> None
      | Inr entries \<Rightarrow>
          (let normalizedModel = normalizeModelName u m in
           case objectGet entries (propertyKey normalizedModel) of
             Some v \<Rightarrow> Some v
           | None \<Rightarrow>
               (case normalizedModel of
                  Inherited k \<Rightarrow> None
                | Own n \<Rightarrow>
                    (case find (\<lambda>(key, v). toLowerCase u key = toLowerCase u n) entries of
                       Some (key, v) \<Rightarrow> Some (Own v)
                     | None \<Rightarrow> None))))"

text \<open>An inherited member has none of the pricing fields.\<close>

definition noPricingFields :: ModelPricing where
  "noPricingFields =
     \<lparr> max_tokens = None, max_input_tokens = None, max_output_tokens = None,
       input_cost_per_token = None, output_cost_per_token = None,
       input_cost_per_token_above_200k_tokens = None,
       output_cost_per_token_above_200k_tokens = None \<rparr>"

text \<open>
  \<open>PricingService.calculateCost\<close>, of type \<open>Promise<CostCalculation | null>\<close>; \<open>None\<close> is
  \<open>null\<close>. When \<open>getModelPricing\<close> returns \<open>null\<close> the source returns a default calculation
  with zero cost; whatever else it returns goes to \<open>calculateCostFromPricing\<close>.
\<close>

definition PricingService_calculateCost ::
    "(string \<Rightarrow> string) \<Rightarrow> string + PricingData \<Rightarrow> string \<Rightarrow> real \<Rightarrow> real \<Rightarrow> ServiceCost option" where
  "PricingService_calculateCost u pricingData m inTok outTok =
     (case getModelPricing u pricingData m of
        None \<Rightarrow> Some \<lparr> s_inputCost = Some 0, s_outputCost = Some 0, s_totalCost = Some 0,
                      s_inputTokens = inTok, s_outputTokens = outTok, s_model = m,
                      s_tieredPricingApplied = False \<rparr>
      | Some (Own pricing) \<Rightarrow> Some (calculateCostFromPricing m pricing inTok outTok)
      | Some (Inherited k) \<Rightarrow> Some (calculateCostFromPricing m noPricingFields inTok outTok))"

section \<open>Pricing fetcher (pricing/fetcher.ts)\<close>

text \<open>
  A cache file as \<open>loadFromCache\<close> returns it: only \<open>data\<close> is validated, so \<open>metadata\<close> may
  be \<open>undefined\<close> or \<open>null\<close> (\<open>None\<close>), and its \<open>timestamp\<close> is the number the field converts
  to in the subtraction, \<open>None\<close> when that is \<open>NaN\<close> (the field is absent or not numeric).
\<close>

record CacheMetadata =
  timestamp :: "real option"
  source :: string
  ttl :: real

record CacheFile =
  metadata :: "CacheMetadata option"
  cdata :: PricingData

definition LITELLM_PRICING_URL :: string where
  "LITELLM_PRICING_URL =
     ''https://raw.githubusercontent.com/BerriAI/litellm/refs/heads/main/model_prices_and_context_window.json''"


text \<open>
  The world \<open>getLatestPricing\<close> runs in. \<open>disk\<close> is what \<open>loadFromCache\<close> returns (\<open>None\<close> for
  a missing or invalid cache file); \<open>remote\<close> is the outcome of \<open>fetchFromRemote\<close> (\<open>Inl\<close> the
  error it throws); \<open>now\<close> is \<open>Date.now()\<close>; \<open>saveFails\<close> is \<open>None\<close> when \<open>saveToCache\<close>
  completes and \<open>Some (err, d)\<close> when it throws \<open>err\<close>, leaving a cache file that loads as
  \<open>d\<close>. Errors are the strings they convert to.
\<close>

record FetchEnv =
  disk :: "CacheFile option"
  remote :: "string + PricingData"
  now :: real
  saveFails :: "(string \<times> CacheFile option) option"

datatype fetch_event = LoadCache | FetchRemote | SaveCache | Warn string

record FetchOutcome =
  outcome :: "string + PricingData"
  diskAfter :: "CacheFile option"
  events :: "fetch_event list"

text \<open>\<open>isCacheExpired\<close>: \<^verbatim>\<open>Date.now() - metadata.timestamp > this.ttl\<close>, false when the age is
  \<open>NaN\<close>.\<close>

definition isCacheExpired :: "real \<Rightarrow> real \<Rightarrow> CacheMetadata \<Rightarrow> bool" where
  "isCacheExpired fetcherTtl tnow md =
     (case timestamp md of None \<Rightarrow> False | Some t \<Rightarrow> tnow - t > fetcherTtl)"

definition saveToCache :: "real \<Rightarrow> real \<Rightarrow> PricingData \<Rightarrow> CacheFile" where
  "saveToCache fetcherTtl tnow d =
     \<lparr> metadata = Some \<lparr> timestamp = Some tnow, source = LITELLM_PRICING_URL, ttl = fetcherTtl \<rparr>,
       cdata = d \<rparr>"

text \<open>The second half of \<open>getLatestPricing\<close>: the \<open>try\<close> around fetch and save, and its
  \<open>catch\<close>. \<open>pre\<close> lists the events that happened before.\<close>

definition fetchOrFallback :: "real \<Rightarrow> FetchEnv \<Rightarrow> fetch_event list \<Rightarrow> FetchOutcome" where
  "fetchOrFallback fetcherTtl env pre =
     (let fallback = (\<lambda>fetchError d evs.
            case d of
              Some cached \<Rightarrow>
                \<lparr> outcome = Inr (cdata cached), diskAfter = d,
                  events = evs @ [LoadCache, Warn fetchError] \<rparr>
            | None \<Rightarrow>
                \<lparr> outcome = Inl (''Failed to fetch pricing data and no cache available: '' @ fetchError),
                  diskAfter = d, events = evs @ [LoadCache] \<rparr>)
      in case remote env of
           Inr freshData \<Rightarrow>
             (case saveFails env of
                None \<Rightarrow> \<lparr> outcome = Inr freshData,
                          diskAfter = Some (saveToCache fetcherTtl (now env) freshData),
                          events = pre @ [FetchRemote, SaveCache] \<rparr>
              | Some (saveError, d) \<Rightarrow>
                  fallback saveError d (pre @ [FetchRemote, SaveCache]))
         | Inl fetchError \<Rightarrow> fallback fetchError (disk env) (pre @ [FetchRemote]))"

text \<open>
  \<open>getLatestPricing\<close>. On a cache file without metadata the call
  \<open>isCacheExpired(cached.metadata)\<close> throws a \<open>TypeError\<close>, outside the \<open>try\<close>; it is recorded
  by its name.
\<close>

definition getLatestPricing :: "real \<Rightarrow> FetchEnv \<Rightarrow> bool \<Rightarrow> FetchOutcome" where
  "getLatestPricing fetcherTtl env forceRefresh =
     (if \<not> forceRefresh
      then (case disk env of
              Some cached \<Rightarrow>
                (case metadata cached of
                   None \<Rightarrow>
                     \<lparr> outcome = Inl ''TypeError'',
                       diskAfter = disk env, events = [LoadCache] \<rparr>
                 | Some md \<Rightarrow>
                     if \<not> isCacheExpired fetcherTtl (now env) md
                     then \<lparr> outcome = Inr (cdata cached), diskAfter = disk env,
                            events = [LoadCache] \<rparr>
                     else fetchOrFallback fetcherTtl env [LoadCache])
            | None \<Rightarrow> fetchOrFallback fetcherTtl env [LoadCache])
      else fetchOrFallback fetcherTtl env [])"

section \<open>OpenAI adapter (providers/openai.ts)\<close>

record AIRequest =
  r_model :: "string option"
  prompt :: string
  systemPrompt :: "string option"
  temperature :: "real option"
  maxOutputTokens :: "real option"
  reasoningEffort :: "string option"
  toolName :: "string option"

text \<open>The part of the configuration the adapter reads; \<open>None\<close> fields are absent.\<close>

record OpenAIConfig =
  apiKey :: "string option"
  envApiKey :: "string option"
  preferredModel :: "string option"

text \<open>The options handed to the SDK's \<open>generateText\<close> / \<open>streamText\<close>.\<close>

record SdkOptions =
  o_model :: string
  o_prompt :: string
  o_temperature :: real
  o_maxOutputTokens :: "real option"
  o_system :: "string option"
  o_reasoningEffort :: "string option"

text \<open>\<^verbatim>\<open>a || b\<close> on optional strings: \<open>a\<close> if it is defined and non-empty, else \<open>b\<close>.\<close>

definition truthyStr :: "string option \<Rightarrow> string option" where
  "truthyStr a = (case a of Some s \<Rightarrow> if s \<noteq> [] then Some s else None | None \<Rightarrow> None)"

definition getDefaultModel :: string where
  "getDefaultModel = ''gpt-5''"

definition getPreferredModel :: "OpenAIConfig \<Rightarrow> string" where
  "getPreferredModel config =
     (case truthyStr (preferredModel config) of Some m \<Rightarrow> m | None \<Rightarrow> getDefaultModel)"

text \<open>\<open>getCredentials\<close> throws when neither the configuration nor the environment has a
  key.\<close>

definition getCredentials :: "OpenAIConfig \<Rightarrow> string + string" where
  "getCredentials config =
     (case truthyStr (apiKey config) of
        Some k \<Rightarrow> Inr k
      | None \<Rightarrow>
          (case truthyStr (envApiKey config) of
             Some k \<Rightarrow> Inr k
           | None \<Rightarrow> Inl ''OpenAI API key not configured. Run 'ultra config' or set OPENAI_API_KEY environment variable.''))"

text \<open>
  The options built by \<open>generateText\<close>, up to the call of the SDK. The temperature is
  \<^verbatim>\<open>(model === 'gpt-5' || model === 'o3') ? 1 : (request.temperature ?? 0.7)\<close>.
\<close>

definition openai_generateText_options :: "OpenAIConfig \<Rightarrow> AIRequest \<Rightarrow> string + SdkOptions" where
  "openai_generateText_options config request =
     (case getCredentials config of
        Inl err \<Rightarrow> Inl err
      | Inr key \<Rightarrow>
          (let m = (case truthyStr (r_model request) of
                      Some m \<Rightarrow> m | None \<Rightarrow> getPreferredModel config);
               enforcedTemperature =
                 (if m = ''gpt-5'' \<or> m = ''o3'' then 1
                  else (case temperature request of Some t \<Rightarrow> t | None \<Rightarrow> 0.7))
           in Inr \<lparr> o_model = m, o_prompt = prompt request,
                    o_temperature = enforcedTemperature,
                    o_maxOutputTokens = maxOutputTokens request,
                    o_system = truthyStr (systemPrompt request),
                    o_reasoningEffort =
                      (if startsWith m ''o3'' \<or> startsWith m ''o1''
                       then (case truthyStr (reasoningEffort request) of
                               Some e \<Rightarrow> Some e | None \<Rightarrow> Some ''medium'')
                       else None) \<rparr>))"

text \<open>\<open>streamText\<close> builds the same options (and adds an \<open>onFinish\<close> callback, which does
  not take part in what is sent upstream).\<close>

definition openai_streamText_options :: "OpenAIConfig \<Rightarrow> AIRequest \<Rightarrow> string + SdkOptions" where
  "openai_streamText_options config request =
     (case getCredentials config of
        Inl err \<Rightarrow> Inl err
      | Inr key \<Rightarrow>
          (let m = (case truthyStr (r_model request) of
                      Some m \<Rightarrow> m | None \<Rightarrow> getPreferredModel config);
               enforcedTemperature =
                 (if m = ''gpt-5'' \<or> m = ''o3'' then 1
                  else (case temperature request of Some t \<Rightarrow> t | None \<Rightarrow> 0.7))
           in Inr \<lparr> o_model = m, o_prompt = prompt request,
                    o_temperature = enforcedTemperature,
                    o_maxOutputTokens = maxOutputTokens request,
                    o_system = truthyStr (systemPrompt request),
                    o_reasoningEffort =
                      (if startsWith m ''o3'' \<or> startsWith m ''o1''
                       then (case truthyStr (reasoningEffort request) of
                               Some e \<Rightarrow> Some e | None \<Rightarrow> Some ''medium'')
                       else None) \<rparr>))"

section \<open>Conversation memory: budgets (db/schema.ts, db/conversation-memory.ts)\<close>

record ConversationBudget =
  b_id :: string
  b_sessionId :: string
  maxTokens :: "int option"
  maxCostUsd :: "real option"
  maxDurationMs :: "int option"
  usedTokens :: int
  usedCostUsd :: real
  usedDurationMs :: int

record BudgetCheck =
  withinLimits :: bool
  tokenLimitExceeded :: bool
  costLimitExceeded :: bool
  durationLimitExceeded :: bool

text \<open>
  \<open>checkBudgetLimits\<close> reads the table \<open>conversation_budgets\<close>, here the list of its rows;
  \<^verbatim>\<open>select().where(eq(sessionId, s)).limit(1)\<close> is the first row of the session.
\<close>

definition checkBudgetLimits :: "ConversationBudget list \<Rightarrow> string \<Rightarrow> BudgetCheck" where
  "checkBudgetLimits budgets s =
     (case find (\<lambda>b. b_sessionId b = s) budgets of
        None \<Rightarrow> \<lparr> withinLimits = True, tokenLimitExceeded = False,
                  costLimitExceeded = False, durationLimitExceeded = False \<rparr>
      | Some b \<Rightarrow>
          (let tokenEx = (case maxTokens b of None \<Rightarrow> False | Some m \<Rightarrow> usedTokens b \<ge> m);
               costEx = (case maxCostUsd b of None \<Rightarrow> False | Some m \<Rightarrow> usedCostUsd b \<ge> m);
               durEx = (case maxDurationMs b of None \<Rightarrow> False | Some m \<Rightarrow> usedDurationMs b \<ge> m)
           in \<lparr> withinLimits = (\<not> tokenEx \<and> \<not> costEx \<and> \<not> durEx),
                tokenLimitExceeded = tokenEx, costLimitExceeded = costEx,
                durationLimitExceeded = durEx \<rparr>))"

section \<open>Conversation memory: the database (db/schema.ts)\<close>

datatype role = User | Assistant | System | Tool

fun roleName :: "role \<Rightarrow> string" where
  "roleName User = ''user''"
| "roleName Assistant = ''assistant''"
| "roleName System = ''system''"
| "roleName Tool = ''tool''"

datatype session_status = Active | Archived | Deleted

record Session =
  s_id :: string
  s_name :: "string option"
  createdAt :: int
  updatedAt :: int
  lastMessageAt :: "int option"
  status :: session_status
  s_metadata :: "string option"

record ConversationMessage =
  m_id :: string
  m_sessionId :: string
  messageIndex :: int
  m_timestamp :: int
  role :: role
  content :: string
  m_toolName :: "string option"
  parentMessageId :: "string option"
  m_metadata :: "string option"

record ConversationFile =
  f_id :: string
  f_sessionId :: string
  filePath :: string
  fileContent :: "string option"
  contentHash :: "string option"
  addedAt :: int
  lastAccessedAt :: int
  accessCount :: int
  isRelevant :: "bool option"

text \<open>
  The database: each table is the list of its rows in insertion order. \<open>foreignKeys\<close> says
  whether SQLite enforces the \<open>references\<close> clauses (a setting of the connection).
  Timestamps are milliseconds; nullable columns are options.
\<close>

record Database =
  sessions :: "Session list"
  conversationMessages :: "ConversationMessage list"
  conversationFiles :: "ConversationFile list"
  conversationBudgets :: "ConversationBudget list"
  foreignKeys :: bool

definition sessionExists :: "Database \<Rightarrow> string \<Rightarrow> bool" where
  "sessionExists db sid = (sid \<in> set (map s_id (sessions db)))"

text \<open>
  An \<open>insert\<close> into \<open>conversation_messages\<close> is accepted when the primary key is new, the
  unique index on \<open>(session_id, message_index)\<close> is respected and, if enforced, the
  session exists.
\<close>

definition messageInsertable :: "Database \<Rightarrow> ConversationMessage \<Rightarrow> bool" where
  "messageInsertable db m =
     (m_id m \<notin> set (map m_id (conversationMessages db))
      \<and> (m_sessionId m, messageIndex m)
          \<notin> set (map (\<lambda>x. (m_sessionId x, messageIndex x)) (conversationMessages db))
      \<and> (foreignKeys db \<longrightarrow> sessionExists db (m_sessionId m)))"

text \<open>
  A batch \<open>insert\<close> into \<open>conversation_files\<close>: new primary keys, the unique index on
  \<open>(session_id, content_hash)\<close> (rows with a null hash never collide), the foreign key.
\<close>

definition fileKey :: "ConversationFile \<Rightarrow> string \<times> string option" where
  "fileKey f = (f_sessionId f, contentHash f)"

definition hashedRows :: "ConversationFile list \<Rightarrow> ConversationFile list" where
  "hashedRows rows = filter (\<lambda>f. contentHash f \<noteq> None) rows"

definition filesInsertable :: "Database \<Rightarrow> ConversationFile list \<Rightarrow> bool" where
  "filesInsertable db rows =
     (distinct (map f_id rows)
      \<and> set (map f_id rows) \<inter> set (map f_id (conversationFiles db)) = {}
      \<and> distinct (map fileKey (hashedRows rows))
      \<and> set (map fileKey (hashedRows rows))
          \<inter> set (map fileKey (hashedRows (conversationFiles db))) = {}
      \<and> (foreignKeys db \<longrightarrow> (\<forall>f \<in> set rows. sessionExists db (f_sessionId f))))"

section \<open>Conversation memory: operations (db/conversation-memory.ts)\<close>

definition sessionMessages :: "Database \<Rightarrow> string \<Rightarrow> ConversationMessage list" where
  "sessionMessages db sid = filter (\<lambda>m. m_sessionId m = sid) (conversationMessages db)"

text \<open>
  \<open>addMessage\<close>, one transaction. \<open>newId\<close> is the UUID generated for the row and \<open>tnow\<close> the
  clock. The index is \<^verbatim>\<open>(lastMessage[0]?.messageIndex ?? -1) + 1\<close>, \<open>lastMessage\<close> being the
  session's rows ordered by \<open>messageIndex\<close> descending, limit 1. A rejected insert throws:
  the transaction rolls back and the error is rethrown as \<open>Failed to add message\<close>.
\<close>

definition addMessage ::
    "Database \<Rightarrow> string \<Rightarrow> role \<Rightarrow> string \<Rightarrow> string option \<Rightarrow> string option \<Rightarrow> string option
       \<Rightarrow> string \<Rightarrow> int \<Rightarrow> string + (ConversationMessage \<times> Database)" where
  "addMessage db sid r c tool parent meta newId tnow =
     (let lastMessage = take 1 (rev (sort (map messageIndex (sessionMessages db sid))));
          idx = (case lastMessage of [] \<Rightarrow> - 1 | i # _ \<Rightarrow> i) + 1;
          message = \<lparr> m_id = newId, m_sessionId = sid, messageIndex = idx, m_timestamp = tnow,
                      role = r, content = c, m_toolName = tool, parentMessageId = parent,
                      m_metadata = meta \<rparr>
      in if messageInsertable db message
         then Inr (message,
                db\<lparr> conversationMessages := conversationMessages db @ [message],
                    sessions := map (\<lambda>s. if s_id s = sid
                                           then s\<lparr> lastMessageAt := Some tnow, updatedAt := tnow \<rparr>
                                           else s) (sessions db) \<rparr>)
         else Inl ''Failed to add message: constraint failed'')"

text \<open>A sequence of \<open>addMessage\<close> calls, on any sessions. A call that throws leaves the
  database as it was; the messages returned by the successful calls are collected in order.\<close>

record MessageCall =
  call_sessionId :: string
  call_role :: role
  call_content :: string
  call_toolName :: "string option"
  call_parentMessageId :: "string option"
  call_metadata :: "string option"
  call_newId :: string
  call_now :: int

fun addMessages :: "Database \<Rightarrow> MessageCall list \<Rightarrow> Database \<times> ConversationMessage list" where
  "addMessages db [] = (db, [])"
| "addMessages db (c # cs) =
     (case addMessage db (call_sessionId c) (call_role c) (call_content c) (call_toolName c)
             (call_parentMessageId c) (call_metadata c) (call_newId c) (call_now c) of
        Inl err \<Rightarrow> addMessages db cs
      | Inr (message, db') \<Rightarrow>
          (case addMessages db' cs of (db'', ms) \<Rightarrow> (db'', message # ms)))"

text \<open>The statement
  \<^verbatim>\<open>update(conversationFiles).set({lastAccessedAt: new Date(), accessCount}).where(eq(id, i))\<close>.\<close>

definition updateFileAccess ::
    "string \<Rightarrow> int \<Rightarrow> int \<Rightarrow> ConversationFile list \<Rightarrow> ConversationFile list" where
  "updateFileAccess i tnow n rows =
     map (\<lambda>f. if f_id f = i then f\<lparr> lastAccessedAt := tnow, accessCount := n \<rparr> else f) rows"

text \<open>
  \<open>addFiles\<close>, one transaction. \<open>sha256\<close> is the hash function, \<open>genId k\<close> the UUID of the
  \<open>k\<close>-th inserted row, \<open>tnow\<close> the clock (read once per call in the model). \<open>existingHashMap\<close>
  is a JavaScript \<open>Map\<close> built from the selected rows, so a later row wins on equal keys.
\<close>

definition addFiles ::
    "(string \<Rightarrow> string) \<Rightarrow> Database \<Rightarrow> string \<Rightarrow> (string \<times> string) list \<Rightarrow> (nat \<Rightarrow> string) \<Rightarrow> int
       \<Rightarrow> string + Database" where
  "addFiles sha256 db sid files genId tnow =
     (let fileData = map (\<lambda>(path, c). (path, c, sha256 c)) files;
          contentHashes = map (\<lambda>(path, c, h). h) fileData;
          existingFiles =
            (if contentHashes \<noteq> []
             then filter (\<lambda>f. f_sessionId f = sid
                               \<and> (case contentHash f of Some h \<Rightarrow> h \<in> set contentHashes
                                   | None \<Rightarrow> False))
                    (conversationFiles db)
             else []);
          existingHashMap = map_of (rev (map (\<lambda>f. (contentHash f, f)) existingFiles));
          filesToInsert = filter (\<lambda>(path, c, h). existingHashMap (Some h) = None) fileData;
          filesToUpdate =
            concat (map (\<lambda>(path, c, h).
                           case existingHashMap (Some h) of
                             None \<Rightarrow> []
                           | Some existing \<Rightarrow> [(f_id existing, accessCount existing + 1)])
                      fileData);
          newRows = map (\<lambda>(k, (path, c, h)).
                           \<lparr> f_id = genId k, f_sessionId = sid, filePath = path,
                             fileContent = Some c, contentHash = Some h, addedAt = tnow,
                             lastAccessedAt = tnow, accessCount = 0, isRelevant = Some True \<rparr>)
                      (enumerate 0 filesToInsert)
      in if filesInsertable db newRows
         then Inr (db\<lparr> conversationFiles :=
                    fold (\<lambda>(i, n). updateFileAccess i tnow n)
                      filesToUpdate (conversationFiles db @ newRows) \<rparr>)
         else Inl ''Failed to add files: constraint failed'')"

text \<open>The rows of a session with a given content hash, and the unique index as a property
  of the table.\<close>

definition fileRows :: "Database \<Rightarrow> string \<Rightarrow> string \<Rightarrow> ConversationFile list" where
  "fileRows db sid h = filter (\<lambda>f. fileKey f = (sid, Some h)) (conversationFiles db)"

definition uniqueFileKeys :: "Database \<Rightarrow> bool" where
  "uniqueFileKeys db = distinct (map fileKey (hashedRows (conversationFiles db)))"

subsection \<open>Token counting (utils/tokenizer.ts)\<close>

text \<open>
  The tiktoken library is a parameter \<open>tk\<close>: \<open>tk enc\<close> is \<open>None\<close> when loading the encoding
  named \<open>enc\<close> throws, otherwise the encoder, which maps a text to its number of tokens or
  to \<open>None\<close> when encoding it throws.
\<close>

type_synonym tokenizer = "string \<Rightarrow> (string \<Rightarrow> nat option) option"

definition encodingName :: "string \<Rightarrow> string" where
  "encodingName m =
     (if startsWith m ''gpt-4'' \<or> startsWith m ''gpt-3.5'' then ''cl100k_base''
      else if startsWith m ''text-davinci'' \<or> startsWith m ''text-curie'' then ''p50k_base''
      else if startsWith m ''gemini'' then ''cl100k_base''
      else ''cl100k_base'')"

definition ceilDiv4 :: "nat \<Rightarrow> nat" where
  "ceilDiv4 n = (n + 3) div 4"

definition countTokens :: "tokenizer \<Rightarrow> string \<Rightarrow> string \<Rightarrow> nat" where
  "countTokens tk text m =
     (case tk (encodingName m) of
        None \<Rightarrow> ceilDiv4 (jsLength text)
      | Some enc \<Rightarrow>
          (case enc text of
             Some n \<Rightarrow> n
           | None \<Rightarrow> ceilDiv4 (jsLength text)))"

text \<open>\<open>countMessageTokens\<close> on messages \<open>(role, content, name?)\<close>: the loop of the \<open>try\<close>
  block, \<open>None\<close> as soon as one \<open>encode\<close> throws; then the \<open>catch\<close> estimate.\<close>

fun messageTokensLoop ::
    "(string \<Rightarrow> nat option) \<Rightarrow> (string \<times> string \<times> string option) list \<Rightarrow> nat \<Rightarrow> nat option" where
  "messageTokensLoop enc [] tot = Some tot"
| "messageTokensLoop enc ((r, c, name) # ms) tot =
     (case (case name of
              Some n \<Rightarrow> if n \<noteq> [] then enc n else Some 0
            | None \<Rightarrow> Some 0) of
        None \<Rightarrow> None
      | Some nameTokens \<Rightarrow>
          (case enc r of
             None \<Rightarrow> None
           | Some roleTokens \<Rightarrow>
               (case enc c of
                  None \<Rightarrow> None
                | Some contentTokens \<Rightarrow>
                    messageTokensLoop enc ms
                      (tot + 3 + nameTokens + roleTokens + contentTokens))))"

definition countMessageTokens ::
    "tokenizer \<Rightarrow> (string \<times> string \<times> string option) list \<Rightarrow> string \<Rightarrow> nat" where
  "countMessageTokens tk messages m =
     (let estimate =
            ceilDiv4 (sum_list (map (\<lambda>(r, c, name).
                          jsLength c + jsLength r
                            + (case name of Some n \<Rightarrow> jsLength n | None \<Rightarrow> 0))
                        messages))
              + length messages * 4
      in case tk (encodingName m) of
           None \<Rightarrow> estimate
         | Some enc \<Rightarrow>
             (case messageTokensLoop enc messages 0 of
                Some tot \<Rightarrow> tot + 3
              | None \<Rightarrow> estimate))"

subsection \<open>Conversation context and pruning\<close>

text \<open>A file of the context: the row and the added \<open>content\<close> field
  (\<^verbatim>\<open>file.fileContent || undefined\<close>).\<close>

record ContextFile =
  cf_row :: ConversationFile
  cf_content :: "string option"

record ConversationContext =
  ctx_sessionId :: string
  ctx_messages :: "ConversationMessage list"
  ctx_files :: "ContextFile list"
  ctx_budget :: "ConversationBudget option"
  ctx_totalTokens :: real
  ctx_totalCost :: real

definition MESSAGE_TOKEN_RATIO :: real where
  "MESSAGE_TOKEN_RATIO = 0.7"

definition FILE_TOKEN_RATIO :: real where
  "FILE_TOKEN_RATIO = 0.3"

text \<open>\<^verbatim>\<open>file.content || file.fileContent || ''\<close>\<close>

definition fileText :: "ContextFile \<Rightarrow> string" where
  "fileText f =
     (case truthyStr (cf_content f) of
        Some c \<Rightarrow> c
      | None \<Rightarrow> (case truthyStr (fileContent (cf_row f)) of Some c \<Rightarrow> c | None \<Rightarrow> []))"

text \<open>\<open>pruneMessages\<close>: the loop runs from the newest message down, over the reversed
  list here, and stops at the first message that does not fit; \<open>result.unshift\<close> keeps the
  chronological order.\<close>

fun pruneMessagesLoop ::
    "(string \<Rightarrow> nat) \<Rightarrow> int \<Rightarrow> int \<Rightarrow> ConversationMessage list \<Rightarrow> ConversationMessage list
       \<Rightarrow> ConversationMessage list" where
  "pruneMessagesLoop cnt maxT tot [] result = result"
| "pruneMessagesLoop cnt maxT tot (m # ms) result =
     (let tokens = int (cnt (content m))
      in if tot + tokens > maxT then result
         else pruneMessagesLoop cnt maxT (tot + tokens) ms (m # result))"

definition pruneMessages ::
    "tokenizer \<Rightarrow> ConversationMessage list \<Rightarrow> int \<Rightarrow> string
       \<Rightarrow> ConversationMessage list" where
  "pruneMessages tk messages maxT m =
     pruneMessagesLoop (\<lambda>t. countTokens tk t m) maxT 0 (rev messages) []"

fun pruneFilesLoop ::
    "(string \<Rightarrow> nat) \<Rightarrow> int \<Rightarrow> int \<Rightarrow> ContextFile list \<Rightarrow> ContextFile list" where
  "pruneFilesLoop cnt maxT tot [] = []"
| "pruneFilesLoop cnt maxT tot (f # fs) =
     (let tokens = int (cnt (fileText f))
      in if tot + tokens > maxT then []
         else f # pruneFilesLoop cnt maxT (tot + tokens) fs)"

definition pruneFiles ::
    "tokenizer \<Rightarrow> ContextFile list \<Rightarrow> int \<Rightarrow> string \<Rightarrow> ContextFile list" where
  "pruneFiles tk files maxT m = pruneFilesLoop (\<lambda>t. countTokens tk t m) maxT 0 files"

text \<open>
  \<open>getConversationContext\<close>. \<open>maxTok\<close> is the optional \<open>maxTokens\<close>. The pruning branch is
  guarded by \<^verbatim>\<open>maxTokens && totalTokens > maxTokens\<close>, a truthiness test of \<open>maxTokens\<close>:
  an absent limit and a limit of \<open>0\<close> both skip it. The budgets
  \<^verbatim>\<open>Math.floor(maxTokens * RATIO)\<close> are computed in double precision, where the product is
  rounded before the floor is taken: \<open>mulFloor a b\<close> is this \<open>Math.floor(a * b)\<close>, a
  parameter. Rows of equal sort key keep their table order (SQL leaves it open).
\<close>

definition getConversationContext ::
    "tokenizer \<Rightarrow> (real \<Rightarrow> real \<Rightarrow> int) \<Rightarrow> Database \<Rightarrow> string \<Rightarrow> real option \<Rightarrow> bool \<Rightarrow> string
       \<Rightarrow> ConversationContext" where
  "getConversationContext tk mulFloor db sid maxTok includeFiles m =
     (let budget = find (\<lambda>b. b_sessionId b = sid) (conversationBudgets db);
          messages = sort_key messageIndex (sessionMessages db sid);
          files =
            (if includeFiles
             then map (\<lambda>f. \<lparr> cf_row = f, cf_content = truthyStr (fileContent f) \<rparr>)
                    (sort_key (\<lambda>f. - lastAccessedAt f)
                       (filter (\<lambda>f. f_sessionId f = sid \<and> isRelevant f = Some True)
                          (conversationFiles db)))
             else []);
          messageTokens =
            countMessageTokens tk (map (\<lambda>x. (roleName (role x), content x, None)) messages) m;
          fileTokens = sum_list (map (\<lambda>f. countTokens tk (fileText f) m) files);
          totalTokens = messageTokens + fileTokens;
          totalCost = (case budget of Some b \<Rightarrow> usedCostUsd b | None \<Rightarrow> 0)
      in case maxTok of
           Some limit \<Rightarrow>
             if limit \<noteq> 0 \<and> real totalTokens > limit
             then \<lparr> ctx_sessionId = sid,
                    ctx_messages =
                      pruneMessages tk messages (mulFloor limit MESSAGE_TOKEN_RATIO) m,
                    ctx_files = pruneFiles tk files (mulFloor limit FILE_TOKEN_RATIO) m,
                    ctx_budget = budget, ctx_totalTokens = limit, ctx_totalCost = totalCost \<rparr>
             else \<lparr> ctx_sessionId = sid, ctx_messages = messages, ctx_files = files,
                    ctx_budget = budget, ctx_totalTokens = real totalTokens,
                    ctx_totalCost = totalCost \<rparr>
         | None \<Rightarrow>
             \<lparr> ctx_sessionId = sid, ctx_messages = messages, ctx_files = files,
               ctx_budget = budget, ctx_totalTokens = real totalTokens,
               ctx_totalCost = totalCost \<rparr>)"

text \<open>The indices of a session, read in insertion order, are \<open>0, 1, \<dots>, n - 1\<close>.\<close>

definition denseIndices :: "Database \<Rightarrow> string \<Rightarrow> bool" where
  "denseIndices db sid =
     (map messageIndex (sessionMessages db sid) = map int [0..<length (sessionMessages db sid)])"

section \<open>DeepSeek R1 adapter: streaming (providers/deepseek-r1.ts)\<close>

subsection \<open>JSON values and the JavaScript operations on them\<close>

text \<open>
  A parsed JSON value. An object is the list of its properties, read with \<open>map_of\<close>.
  \<open>undefined\<close> is \<open>None\<close> of \<open>json option\<close>. \<open>JSON.parse\<close> itself is a parameter
  \<open>parse\<close> of the adapter's model, \<open>None\<close> when it throws.
\<close>

datatype json =
  JNull | JBool bool | JNum real | JStr string | JArr "json list" | JObj "(string \<times> json) list"

fun truthy :: "json \<Rightarrow> bool" where
  "truthy JNull = False"
| "truthy (JBool b) = b"
| "truthy (JNum n) = (n \<noteq> 0)"
| "truthy (JStr s) = (s \<noteq> [])"
| "truthy (JArr xs) = True"
| "truthy (JObj kvs) = True"

definition truthyOpt :: "json option \<Rightarrow> bool" where
  "truthyOpt v = (case v of None \<Rightarrow> False | Some x \<Rightarrow> truthy x)"

text \<open>\<open>v?.k\<close> for the property names the adapter reads (none of them exists on arrays,
  strings, numbers or booleans): \<open>undefined\<close> on \<open>undefined\<close> and \<open>null\<close>.\<close>

fun getProp :: "json option \<Rightarrow> string \<Rightarrow> json option" where
  "getProp (Some (JObj kvs)) k = map_of kvs k"
| "getProp v k = None"

text \<open>\<open>v?.[0]\<close>: the first element of an array, the property \<open>0\<close> of an object, the first
  code unit of a string (kept as its first byte: the adapter only reads properties from
  it, and a string has none of them).\<close>

fun index0 :: "json option \<Rightarrow> json option" where
  "index0 (Some (JArr (x # xs))) = Some x"
| "index0 (Some (JObj kvs)) = map_of kvs ''0''"
| "index0 (Some (JStr (c # cs))) = Some (JStr [c])"
| "index0 v = None"

text \<open>\<^verbatim>\<open>v || 0\<close>\<close>

definition orZero :: "json option \<Rightarrow> json" where
  "orZero v = (case v of Some x \<Rightarrow> if truthy x then x else JNum 0 | None \<Rightarrow> JNum 0)"

text \<open>String concatenation \<^verbatim>\<open>fullText += content\<close>: a string is appended as it is, any other
  value through JavaScript's \<open>String\<close> conversion, the parameter \<open>str\<close>.\<close>

definition jsString :: "(json \<Rightarrow> string) \<Rightarrow> json \<Rightarrow> string" where
  "jsString str v = (case v of JStr s \<Rightarrow> s | _ \<Rightarrow> str v)"

subsection \<open>Lines\<close>

definition newline :: char where
  "newline = CHR 0x0A"

text \<open>\<^verbatim>\<open>s.split('\n')\<close>: never empty; the last element is the text after the last newline.\<close>

fun splitNewline :: "string \<Rightarrow> string list" where
  "splitNewline [] = [[]]"
| "splitNewline (c # cs) =
     (if c = newline then [] # splitNewline cs
      else (case splitNewline cs of
              l # ls \<Rightarrow> (c # l) # ls
            | [] \<Rightarrow> [[c]]))"

text \<open>
  \<open>trim\<close> removes the white space and the line terminators of ECMAScript from both ends:
  U+0009 to U+000D, U+0020, U+00A0, U+1680, U+2000 to U+200A, U+2028, U+2029, U+202F,
  U+205F, U+3000 and U+FEFF, here each as its UTF-8 encoding.
\<close>

definition whiteSpace :: "string list" where
  "whiteSpace =
     [[CHR 0x09], [CHR 0x0A], [CHR 0x0B], [CHR 0x0C], [CHR 0x0D], [CHR 0x20],
      [CHR 0xC2, CHR 0xA0],
      [CHR 0xE1, CHR 0x9A, CHR 0x80],
      [CHR 0xE2, CHR 0x80, CHR 0x80], [CHR 0xE2, CHR 0x80, CHR 0x81],
      [CHR 0xE2, CHR 0x80, CHR 0x82], [CHR 0xE2, CHR 0x80, CHR 0x83],
      [CHR 0xE2, CHR 0x80, CHR 0x84], [CHR 0xE2, CHR 0x80, CHR 0x85],
      [CHR 0xE2, CHR 0x80, CHR 0x86], [CHR 0xE2, CHR 0x80, CHR 0x87],
      [CHR 0xE2, CHR 0x80, CHR 0x88], [CHR 0xE2, CHR 0x80, CHR 0x89],
      [CHR 0xE2, CHR 0x80, CHR 0x8A],
      [CHR 0xE2, CHR 0x80, CHR 0xA8], [CHR 0xE2, CHR 0x80, CHR 0xA9],
      [CHR 0xE2, CHR 0x80, CHR 0xAF],
      [CHR 0xE2, CHR 0x81, CHR 0x9F],
      [CHR 0xE3, CHR 0x80, CHR 0x80],
      [CHR 0xEF, CHR 0xBB, CHR 0xBF]]"

text \<open>\<open>skipWhite ws k s\<close> drops \<open>k\<close> bytes and then every leading character of \<open>s\<close> whose
  encoding is in \<open>ws\<close>.\<close>

fun skipWhite :: "string list \<Rightarrow> nat \<Rightarrow> string \<Rightarrow> string" where
  "skipWhite ws k [] = []"
| "skipWhite ws k (c # cs) =
     (if k > 0 then skipWhite ws (k - 1) cs
      else (case find (\<lambda>w. w \<noteq> [] \<and> startsWith (c # cs) w) ws of
              Some w \<Rightarrow> skipWhite ws (length w - 1) cs
            | None \<Rightarrow> c # cs))"

definition trimStart :: "string \<Rightarrow> string" where
  "trimStart s = skipWhite whiteSpace 0 s"

definition trimEnd :: "string \<Rightarrow> string" where
  "trimEnd s = rev (skipWhite (map rev whiteSpace) 0 (rev s))"

definition trim :: "string \<Rightarrow> string" where
  "trim s = trimEnd (trimStart s)"

subsection \<open>The stream loop\<close>

record Usage =
  promptTokens :: json
  completionTokens :: json
  totalTokens :: json

text \<open>The local variables of \<open>streamText\<close>, and the chunks yielded so far.\<close>

record StreamState =
  buffer :: string
  fullText :: string
  usage :: "Usage option"
  finishReason :: json
  yielded :: "json list"

datatype line_step = Break | Next StreamState

text \<open>
  The body of \<^verbatim>\<open>for (const line of lines)\<close>. A line that does not start with \<open>data: \<close> is
  ignored. \<open>[DONE]\<close> executes \<open>break\<close>. A \<open>JSON.parse\<close> that throws, and the \<open>TypeError\<close> of
  \<open>parsed.choices\<close> on \<open>null\<close>, are caught by the \<open>catch\<close> around the block, which continues
  with the next line.
\<close>

definition processLine ::
    "(string \<Rightarrow> json option) \<Rightarrow> (json \<Rightarrow> string) \<Rightarrow> StreamState \<Rightarrow> string \<Rightarrow> line_step" where
  "processLine parse str st line =
     (if startsWith line ''data: ''
      then (let d = trim (drop 6 line) in
            if d = ''[DONE]'' then Break
            else (case parse d of
                    None \<Rightarrow> Next st
                  | Some JNull \<Rightarrow> Next st
                  | Some parsed \<Rightarrow>
                      (let choice = index0 (getProp (Some parsed) ''choices'');
                           c = getProp (getProp choice ''delta'') ''content'';
                           st1 = (case c of
                                    Some x \<Rightarrow>
                                      if truthy x
                                      then st\<lparr> fullText := fullText st @ jsString str x,
                                              yielded := yielded st @ [x] \<rparr>
                                      else st
                                  | None \<Rightarrow> st);
                           u = getProp (Some parsed) ''usage'';
                           st2 = (if truthyOpt u
                                  then st1\<lparr> usage := Some
                                         \<lparr> promptTokens = orZero (getProp u ''prompt_tokens''),
                                           completionTokens = orZero (getProp u ''completion_tokens''),
                                           totalTokens = orZero (getProp u ''total_tokens'') \<rparr> \<rparr>
                                  else st1);
                           fr = getProp choice ''finish_reason'';
                           st3 = (case fr of
                                    Some x \<Rightarrow> if truthy x then st2\<lparr> finishReason := x \<rparr> else st2
                                  | None \<Rightarrow> st2)
                       in Next st3)))
      else Next st)"

fun processLines ::
    "(string \<Rightarrow> json option) \<Rightarrow> (json \<Rightarrow> string) \<Rightarrow> StreamState \<Rightarrow> string list \<Rightarrow> StreamState" where
  "processLines parse str st [] = st"
| "processLines parse str st (line # ls) =
     (case processLine parse str st line of
        Break \<Rightarrow> st
      | Next st' \<Rightarrow> processLines parse str st' ls)"

text \<open>
  The \<^verbatim>\<open>while (true)\<close> loop over the reads of the body: each read is appended to the
  buffer, the buffer is split, its last piece (\<^verbatim>\<open>lines.pop() || ''\<close>) is kept as the new
  buffer and the other pieces are processed. The loop ends when the reads are exhausted.
\<close>

fun readLoop ::
    "(string \<Rightarrow> json option) \<Rightarrow> (json \<Rightarrow> string) \<Rightarrow> StreamState \<Rightarrow> string list \<Rightarrow> StreamState" where
  "readLoop parse str st [] = st"
| "readLoop parse str st (chunk # rest) =
     (let ls = splitNewline (buffer st @ chunk)
      in readLoop parse str (processLines parse str (st\<lparr> buffer := last ls \<rparr>) (butlast ls)) rest)"

definition initialStream :: StreamState where
  "initialStream =
     \<lparr> buffer = [], fullText = [], usage = None, finishReason = JStr ''stop'', yielded = [] \<rparr>"

text \<open>
  What \<open>fetch\<close> and the body reader deliver: a failed fetch, a non-2xx status with its body
  text, a response without body, or a body as the list of its decoded reads, ended cleanly
  (\<open>None\<close>) or by a read that throws.
\<close>

datatype response =
  FetchError string
| HttpError nat string
| NoBody
| Body "string list" "string option"

text \<open>The argument of the final \<open>updateLLMCompletion\<close> call: \<open>responseData\<close> (\<open>None\<close> for
  \<open>null\<close>), usage, finish reason and error message.\<close>

record CompletionCall =
  responseText :: "string option"
  c_usage :: "Usage option"
  c_finishReason :: "json option"
  c_error :: "string option"

text \<open>Modelled from the spec: the tracker \<open>db/tracking\<close> is not among the sources; it closes
  a record as \<open>success\<close> when completed without an error message, as \<open>error\<close> otherwise.\<close>

definition recordsSuccess :: "CompletionCall \<Rightarrow> bool" where
  "recordsSuccess call = (c_error call = None)"

text \<open>
  \<open>streamText\<close> from the response on (credentials and request construction come before):
  the chunks yielded to the consumer, the completion recorded, and the error rethrown, if
  any.
\<close>

record StreamOutcome =
  chunks :: "json list"
  completion :: CompletionCall
  thrown :: "string option"

definition failedCall :: "string \<Rightarrow> CompletionCall" where
  "failedCall msg =
     \<lparr> responseText = None, c_usage = None, c_finishReason = None, c_error = Some msg \<rparr>"

definition deepseek_streamText ::
    "(string \<Rightarrow> json option) \<Rightarrow> (json \<Rightarrow> string) \<Rightarrow> (nat \<Rightarrow> string) \<Rightarrow> response \<Rightarrow> StreamOutcome" where
  "deepseek_streamText parse str showStatus resp =
     (case resp of
        FetchError msg \<Rightarrow> \<lparr> chunks = [], completion = failedCall msg, thrown = Some msg \<rparr>
      | HttpError code errorText \<Rightarrow>
          (let msg = ''DeepSeek R1 API error ('' @ showStatus code @ ''): '' @ errorText
           in \<lparr> chunks = [], completion = failedCall msg, thrown = Some msg \<rparr>)
      | NoBody \<Rightarrow>
          (let msg = ''No response body received from DeepSeek R1 API''
           in \<lparr> chunks = [], completion = failedCall msg, thrown = Some msg \<rparr>)
      | Body reads failure \<Rightarrow>
          (let st = readLoop parse str initialStream reads
           in case failure of
                Some msg \<Rightarrow>
                  \<lparr> chunks = yielded st, completion = failedCall msg, thrown = Some msg \<rparr>
              | None \<Rightarrow>
                  \<lparr> chunks = yielded st,
                    completion = \<lparr> responseText = Some (fullText st), c_usage = usage st,
                                   c_finishReason = Some (finishReason st), c_error = None \<rparr>,
                    thrown = None \<rparr>))"

subsection \<open>What one payload contributes\<close>

text \<open>
  Names for the pieces of \<open>processLine\<close>: the terminator test, the content delta
  \<^verbatim>\<open>parsed.choices?.[0]?.delta?.content\<close> and the chunk it yields when truthy, the usage and
  the finish reason a payload carries, and the state after a payload.
\<close>

definition deltaContent :: "json \<Rightarrow> json option" where
  "deltaContent parsed =
     getProp (getProp (index0 (getProp (Some parsed) ''choices'')) ''delta'') ''content''"

definition yieldOf :: "json \<Rightarrow> json list" where
  "yieldOf parsed =
     (case deltaContent parsed of Some x \<Rightarrow> if truthy x then [x] else [] | None \<Rightarrow> [])"

definition isDone :: "string \<Rightarrow> bool" where
  "isDone line = (startsWith line ''data: '' \<and> trim (drop 6 line) = ''[DONE]'')"

definition usageOf :: "json \<Rightarrow> Usage option" where
  "usageOf parsed =
     (let u = getProp (Some parsed) ''usage''
      in if truthyOpt u
         then Some \<lparr> promptTokens = orZero (getProp u ''prompt_tokens''),
                     completionTokens = orZero (getProp u ''completion_tokens''),
                     totalTokens = orZero (getProp u ''total_tokens'') \<rparr>
         else None)"

definition finishOf :: "json \<Rightarrow> json option" where
  "finishOf parsed =
     (case getProp (index0 (getProp (Some parsed) ''choices'')) ''finish_reason'' of
        Some x \<Rightarrow> if truthy x then Some x else None
      | None \<Rightarrow> None)"

definition applyPayload :: "(json \<Rightarrow> string) \<Rightarrow> StreamState \<Rightarrow> json \<Rightarrow> StreamState" where
  "applyPayload str st parsed =
     st\<lparr> fullText := fullText st @ concat (map (jsString str) (yieldOf parsed)),
         yielded := yielded st @ yieldOf parsed,
         usage := (case usageOf parsed of Some u \<Rightarrow> Some u | None \<Rightarrow> usage st),
         finishReason := (case finishOf parsed of Some x \<Rightarrow> x | None \<Rightarrow> finishReason st) \<rparr>"

subsection \<open>The stream as the specification words it\<close>

text \<open>
  The body is split on newlines into its newline-terminated lines. A line that starts
  with \<open>data: \<close> is a payload; the payloads before the terminator \<open>[DONE]\<close> that parse (to
  something other than \<open>null\<close>) count, the others are skipped. The chunks are the truthy
  content deltas of these payloads in order; the response text is their concatenation;
  usage and finish reason are those of the last payload that carried one, no usage and
  \<open>stop\<close> when none did.
\<close>

definition sseLines :: "string \<Rightarrow> string list" where
  "sseLines body = butlast (splitNewline body)"

definition payloadOf :: "(string \<Rightarrow> json option) \<Rightarrow> string \<Rightarrow> json option" where
  "payloadOf parse line =
     (if startsWith line ''data: ''
      then (case parse (trim (drop 6 line)) of
              Some JNull \<Rightarrow> None
            | Some parsed \<Rightarrow> Some parsed
            | None \<Rightarrow> None)
      else None)"

definition ssePayloads :: "(string \<Rightarrow> json option) \<Rightarrow> string \<Rightarrow> json list" where
  "ssePayloads parse body =
     List.map_filter (payloadOf parse) (takeWhile (\<lambda>l. \<not> isDone l) (sseLines body))"

fun lastCarried :: "'a option list \<Rightarrow> 'a option" where
  "lastCarried [] = None"
| "lastCarried (x # xs) = (case lastCarried xs of Some y \<Rightarrow> Some y | None \<Rightarrow> x)"

definition sseOutcome ::
    "(string \<Rightarrow> json option) \<Rightarrow> (json \<Rightarrow> string) \<Rightarrow> string \<Rightarrow> StreamOutcome" where
  "sseOutcome parse str body =
     (let ps = ssePayloads parse body;
          cs = concat (map yieldOf ps)
      in \<lparr> chunks = cs,
           completion =
             \<lparr> responseText = Some (concat (map (jsString str) cs)),
               c_usage = lastCarried (map usageOf ps),
               c_finishReason =
                 Some (case lastCarried (map finishOf ps) of
                         Some x \<Rightarrow> x | None \<Rightarrow> JStr ''stop''),
               c_error = None \<rparr>,
           thrown = None \<rparr>)"

text \<open>No line that starts with \<open>data: \<close> follows the first terminator.\<close>

definition quietAfterDone :: "string list \<Rightarrow> bool" where
  "quietAfterDone ls =
     list_all (\<lambda>l. \<not> startsWith l ''data: '') (drop 1 (dropWhile (\<lambda>l. \<not> isDone l) ls))"

section \<open>Example data\<close>

text \<open>The tiered entry of the specification's second scenario.\<close>

definition geminiPricing :: SimplifiedPricing where
  "geminiPricing =
     \<lparr> model = ''gemini-1.5-pro'', inputCostPerToken = 0.0000035,
       outputCostPerToken = 0.0000105, inputCostPerTokenAbove200k = Some 0.000007,
       outputCostPerTokenAbove200k = Some 0.000021,
       maxInputTokens = None, maxOutputTokens = None \<rparr>"

text \<open>An entry that carries an above-200k input rate of zero.\<close>

definition zeroRatePricing :: SimplifiedPricing where
  "zeroRatePricing =
     \<lparr> model = ''m'', inputCostPerToken = 1, outputCostPerToken = 1,
       inputCostPerTokenAbove200k = Some 0, outputCostPerTokenAbove200k = None,
       maxInputTokens = None, maxOutputTokens = None \<rparr>"

definition gpt4oPricing :: ModelPricing where
  "gpt4oPricing =
     \<lparr> max_tokens = None, max_input_tokens = None, max_output_tokens = None,
       input_cost_per_token = Some 0.0000025, output_cost_per_token = Some 0.00001,
       input_cost_per_token_above_200k_tokens = None,
       output_cost_per_token_above_200k_tokens = None \<rparr>"

definition budgetAtLimit :: ConversationBudget where
  "budgetAtLimit =
     \<lparr> b_id = ''b1'', b_sessionId = ''s1'', maxTokens = Some 100, maxCostUsd = None,
       maxDurationMs = Some 5000, usedTokens = 100, usedCostUsd = 3, usedDurationMs = 10 \<rparr>"

text \<open>A stand-in for the lower-casing of strings that are not ASCII.\<close>

definition exampleLower :: "string \<Rightarrow> string" where
  "exampleLower s = s"





definition openaiConfig :: OpenAIConfig where
  "openaiConfig = \<lparr> apiKey = Some ''sk-test'', envApiKey = None, preferredModel = None \<rparr>"

definition o3miniRequest :: AIRequest where
  "o3miniRequest =
     \<lparr> r_model = Some ''o3-mini'', prompt = ''hi'', systemPrompt = None,
       temperature = Some 0.2, maxOutputTokens = None, reasoningEffort = None,
       toolName = None \<rparr>"

definition gpt5Request :: AIRequest where
  "gpt5Request =
     \<lparr> r_model = None, prompt = ''hi'', systemPrompt = None,
       temperature = Some 0.2, maxOutputTokens = None, reasoningEffort = None,
       toolName = None \<rparr>"

definition exampleDb :: Database where
  "exampleDb =
     \<lparr> sessions = [\<lparr> s_id = ''s1'', s_name = None, createdAt = 0, updatedAt = 0,
                      lastMessageAt = None, status = Active, s_metadata = None \<rparr>],
       conversationMessages = [], conversationFiles = [], conversationBudgets = [],
       foreignKeys = True \<rparr>"

definition messageCall :: "string \<Rightarrow> string \<Rightarrow> int \<Rightarrow> MessageCall" where
  "messageCall newId c tnow =
     \<lparr> call_sessionId = ''s1'', call_role = User, call_content = c, call_toolName = None,
       call_parentMessageId = None, call_metadata = None, call_newId = newId,
       call_now = tnow \<rparr>"

definition exampleCalls :: "MessageCall list" where
  "exampleCalls = [messageCall ''m-a'' ''a'' 1, messageCall ''m-b'' ''b'' 2, messageCall ''m-c'' ''c'' 3]"

text \<open>Stand-ins for SHA-256 and for the tokenizer (one token per character).\<close>

definition toyHash :: "string \<Rightarrow> string" where
  "toyHash c = ''sha:'' @ c"

definition toyTk :: tokenizer where
  "toyTk enc = Some (\<lambda>text. Some (length text))"

definition helloRow :: ConversationFile where
  "helloRow =
     \<lparr> f_id = ''f-1'', f_sessionId = ''s1'', filePath = ''/x.ts'', fileContent = Some ''HELLO'',
       contentHash = Some ''sha:HELLO'', addedAt = 10, lastAccessedAt = 10, accessCount = 0,
       isRelevant = Some True \<rparr>"

definition exampleDb1 :: Database where
  "exampleDb1 = exampleDb\<lparr> conversationFiles := [helloRow] \<rparr>"

definition messageA :: ConversationMessage where
  "messageA =
     \<lparr> m_id = ''m-a'', m_sessionId = ''s1'', messageIndex = 0, m_timestamp = 1, role = User,
       content = ''a'', m_toolName = None, parentMessageId = None, m_metadata = None \<rparr>"

definition contextDb :: Database where
  "contextDb = exampleDb1\<lparr> conversationMessages := [messageA] \<rparr>"

text \<open>The payloads of the specification's streaming scenario and a closing payload with
  usage and finish reason, a stand-in for \<open>JSON.parse\<close> that parses exactly these three,
  and the body made of the three lines of the scenario, each introduced by \<open>pre\<close> and ended
  by a newline.\<close>

definition payloadHe :: string where
  \<open>payloadHe = ''{"choices":[{"delta":{"content":"He"}}]}''\<close>

definition payloadLlo :: string where
  \<open>payloadLlo = ''{"choices":[{"delta":{"content":"llo"}}]}''\<close>

definition deltaJson :: "string \<Rightarrow> json" where
  "deltaJson s = JObj [(''choices'', JArr [JObj [(''delta'', JObj [(''content'', JStr s)])]])]"

definition payloadEnd :: string where
  \<open>payloadEnd = ''{"choices":[{"delta":{},"finish_reason":"length"}],"usage":{"prompt_tokens":3,"completion_tokens":2,"total_tokens":5}}''\<close>

definition endJson :: json where
  "endJson =
     JObj [(''choices'', JArr [JObj [(''delta'', JObj []), (''finish_reason'', JStr ''length'')]]),
           (''usage'', JObj [(''prompt_tokens'', JNum 3), (''completion_tokens'', JNum 2),
                             (''total_tokens'', JNum 5)])]"

definition exampleParse :: "string \<Rightarrow> json option" where
  "exampleParse s =
     (if s = payloadHe then Some (deltaJson ''He'')
      else if s = payloadLlo then Some (deltaJson ''llo'')
      else if s = payloadEnd then Some endJson
      else None)"

definition sseBody :: "string \<Rightarrow> string" where
  "sseBody pre = pre @ payloadHe @ [newline] @ pre @ payloadLlo @ [newline] @ pre @ ''[DONE]'' @ [newline]"

text \<open>The same stream with a last payload that carries usage and a finish reason, cut
  into two reads in the middle of a line.\<close>

definition usageReads :: "string list" where
  "usageReads =
     [''data: '' @ payloadHe @ [newline] @ ''data: '' @ take 20 payloadLlo,
      drop 20 payloadLlo @ [newline] @ ''data: '' @ payloadEnd @ [newline]
        @ ''data: [DONE]'' @ [newline] @ [newline]]"

text \<open>The example stream cut into two reads after 30 bytes; a payload that arrives in
  the read after the terminator's; a body whose last line has no newline.\<close>

definition exampleReads :: "string list" where
  "exampleReads = [take 30 (sseBody ''data: ''), drop 30 (sseBody ''data: '')]"

definition lateReads :: "string list" where
  "lateReads = [''data: [DONE]'' @ [newline], ''data: '' @ payloadHe @ [newline]]"

definition openReads :: "string list" where
  "openReads = [''data: '' @ payloadHe]"

section \<open>Theorems\<close>

text \<open>
  C1 (as amended). For every pricing entry and token counts \<open>(i, j)\<close>, \<open>calculateCost\<close>
  returns \<open>totalCost = inputCost + outputCost\<close>; the tiered branch is taken for input iff
  \<open>i > 200000\<close> and the entry carries a non-zero above-200k input rate (symmetrically for
  output); then the cost is \<open>200000 * baseRate + (count - 200000) * aboveRate\<close>, otherwise
  \<open>count * baseRate\<close>; at exactly 200000 tokens only the base rate is used; and
  \<open>tieredPricingApplied\<close> is true iff at least one tiered branch fired.
\<close>

theorem calculateCost_tiered:
  "totalCost (calculateCost p i j) = inputCost (calculateCost p i j) + outputCost (calculateCost p i j)
   \<and> inputCost (calculateCost p i j) =
       (if tierFires (inputCostPerTokenAbove200k p) i
        then tierCost (inputCostPerToken p) (inputCostPerTokenAbove200k p) i
        else i * inputCostPerToken p)
   \<and> outputCost (calculateCost p i j) =
       (if tierFires (outputCostPerTokenAbove200k p) j
        then tierCost (outputCostPerToken p) (outputCostPerTokenAbove200k p) j
        else j * outputCostPerToken p)
   \<and> \<not> tierFires (inputCostPerTokenAbove200k p) 200000
   \<and> \<not> tierFires (outputCostPerTokenAbove200k p) 200000
   \<and> tieredPricingApplied (calculateCost p i j) =
       (tierFires (inputCostPerTokenAbove200k p) i \<or> tierFires (outputCostPerTokenAbove200k p) j)"
  by (simp add: calculateCost_def tierFires_def tierCost_def TIERED_PRICING_THRESHOLD_def
        split: option.splits)

theorem calculateCost_tiered_witness:
  "inputCost (calculateCost geminiPricing 250000 10000) = 1.05
   \<and> outputCost (calculateCost geminiPricing 250000 10000) = 0.105
   \<and> totalCost (calculateCost geminiPricing 250000 10000) = 1.155
   \<and> tieredPricingApplied (calculateCost geminiPricing 250000 10000)
   \<and> inputCost (calculateCost geminiPricing 200000 10000) = 200000 * 0.0000035"
  using calculateCost_tiered [of geminiPricing 250000 10000]
    calculateCost_tiered [of geminiPricing 200000 10000]
  by (simp add: tierFires_def tierCost_def geminiPricing_def)

text \<open>
  C1 as stated fails: an entry may carry an above-200k input rate of \<open>0\<close>; at 200001 input
  tokens the claim gives the tiered cost \<open>200000 * 1 + 1 * 0\<close> and a true flag, the code
  charges the flat \<open>200001 * 1\<close> and leaves the flag false.
\<close>

theorem calculateCost_zero_rate_counterexample:
  "inputCostPerTokenAbove200k zeroRatePricing = Some 0
   \<and> (200001::real) > 200000
   \<and> inputCost (calculateCost zeroRatePricing 200001 0) = 200001
   \<and> inputCost (calculateCost zeroRatePricing 200001 0)
       \<noteq> 200000 * inputCostPerToken zeroRatePricing + (200001 - 200000) * 0
   \<and> \<not> tieredPricingApplied (calculateCost zeroRatePricing 200001 0)"
  by (simp add: calculateCost_def TIERED_PRICING_THRESHOLD_def zeroRatePricing_def)

subsection \<open>Evaluation lemmas\<close>

lemma normalize_gpt4o: "normalizeModelName u ''gpt-4o'' = Own ''gpt-4o''"
  by code_simp

lemma lower_mystery: "toLowerCase u ''mystery-model'' = ''mystery-model''"
  by code_simp

lemma normalize_mystery: "normalizeModelName u ''mystery-model'' = Own ''mystery-model''"
  by code_simp

lemma normalize_toString: "normalizeModelName u ''toString'' = Own ''toString''"
  by code_simp

subsection \<open>Pricing fetcher\<close>

text \<open>Outside the amended claim: a \<open>saveToCache\<close> that throws is caught by the handler of
  the failed fetch, and a cache whose timestamp is not a number never expires.\<close>

lemma getLatestPricing_save_throws:
  "forceRefresh \<or> disk env = None \<Longrightarrow> remote env = Inr fresh \<Longrightarrow> saveFails env = Some (err, d) \<Longrightarrow>
     outcome (getLatestPricing T env forceRefresh) =
       (case d of
          Some c \<Rightarrow> Inr (cdata c)
        | None \<Rightarrow> Inl (''Failed to fetch pricing data and no cache available: '' @ err))"
  by (auto simp: getLatestPricing_def fetchOrFallback_def Let_def split: option.splits)

lemma getLatestPricing_no_timestamp:
  "disk env = Some c \<Longrightarrow> metadata c = Some md \<Longrightarrow> timestamp md = None \<Longrightarrow>
     getLatestPricing T env False =
       \<lparr> outcome = Inr (cdata c), diskAfter = disk env, events = [LoadCache] \<rparr>"
  by (simp add: getLatestPricing_def isCacheExpired_def)




text \<open>
  C5 (as amended). In \<open>generateText\<close> and \<open>streamText\<close> of the OpenAI adapter, if the
  selected model is exactly \<open>gpt-5\<close> or \<open>o3\<close> the temperature sent upstream is exactly 1
  regardless of the temperature in the request; for every other model, also one whose
  identifier only begins with \<open>o1\<close>, \<open>o3\<close> or \<open>gpt-5\<close>, the request temperature is used, 0.7
  when absent.
\<close>

theorem openai_temperature:
  "(openai_generateText_options config request = Inr opts \<longrightarrow>
      o_temperature opts =
        (if o_model opts = ''gpt-5'' \<or> o_model opts = ''o3'' then 1
         else case temperature request of Some t \<Rightarrow> t | None \<Rightarrow> 0.7))
   \<and> (openai_streamText_options config request = Inr opts \<longrightarrow>
      o_temperature opts =
        (if o_model opts = ''gpt-5'' \<or> o_model opts = ''o3'' then 1
         else case temperature request of Some t \<Rightarrow> t | None \<Rightarrow> 0.7))"
  by (auto simp: openai_generateText_options_def openai_streamText_options_def Let_def
           split: sum.splits)

theorem openai_temperature_witness:
  "openai_generateText_options openaiConfig gpt5Request =
      Inr \<lparr> o_model = ''gpt-5'', o_prompt = ''hi'', o_temperature = 1, o_maxOutputTokens = None,
            o_system = None, o_reasoningEffort = None \<rparr>
   \<and> openai_streamText_options openaiConfig gpt5Request =
      Inr \<lparr> o_model = ''gpt-5'', o_prompt = ''hi'', o_temperature = 1, o_maxOutputTokens = None,
            o_system = None, o_reasoningEffort = None \<rparr>
   \<and> temperature gpt5Request = Some 0.2"
  using openai_temperature [of openaiConfig gpt5Request
      "\<lparr> o_model = ''gpt-5'', o_prompt = ''hi'', o_temperature = 1, o_maxOutputTokens = None,
            o_system = None, o_reasoningEffort = None \<rparr>"]
  by (simp add: openai_generateText_options_def openai_streamText_options_def Let_def
        openaiConfig_def gpt5Request_def getCredentials_def truthyStr_def getPreferredModel_def
        getDefaultModel_def)


text \<open>
  C5 as stated fails: \<open>o3-mini\<close> begins with the prefix \<open>o3\<close>, and a request temperature
  of 0.2 is sent unchanged by both operations (the prefix test of the source only decides
  \<open>reasoningEffort\<close>).
\<close>

theorem openai_temperature_prefix_counterexample:
  "startsWith ''o3-mini'' ''o3''
   \<and> openai_generateText_options openaiConfig o3miniRequest =
      Inr \<lparr> o_model = ''o3-mini'', o_prompt = ''hi'', o_temperature = 0.2, o_maxOutputTokens = None,
            o_system = None, o_reasoningEffort = Some ''medium'' \<rparr>
   \<and> openai_streamText_options openaiConfig o3miniRequest =
      Inr \<lparr> o_model = ''o3-mini'', o_prompt = ''hi'', o_temperature = 0.2, o_maxOutputTokens = None,
            o_system = None, o_reasoningEffort = Some ''medium'' \<rparr>
   \<and> (0.2::real) \<noteq> 1"
  by (simp add: openai_generateText_options_def openai_streamText_options_def Let_def
        openaiConfig_def o3miniRequest_def getCredentials_def truthyStr_def)


text \<open>Whatever entry \<open>getModelPricing\<close> returns sits under the normalized name or under a
  key equal to it up to the case of its letters.\<close>

lemma getModelPricing_found_key:
  assumes "getModelPricing u (Inr entries) m = Some (Own v)"
  shows "\<exists>key. (key, v) \<in> set entries
           \<and> (key = propertyKey (normalizeModelName u m)
               \<or> (\<exists>n. normalizeModelName u m = Own n \<and> toLowerCase u key = toLowerCase u n))"
proof (cases "objectGet entries (propertyKey (normalizeModelName u m))")
  case (Some w)
  then have "w = Own v" using assms by (simp add: getModelPricing_def Let_def)
  then have "map_of entries (propertyKey (normalizeModelName u m)) = Some v"
    using Some by (auto simp: objectGet_def split: option.splits if_splits)
  then have "(propertyKey (normalizeModelName u m), v) \<in> set entries" by (rule map_of_SomeD)
  then show ?thesis by blast
next
  case None
  then obtain n key where n: "normalizeModelName u m = Own n"
    and f: "find (\<lambda>(key, v). toLowerCase u key = toLowerCase u n) entries = Some (key, v)"
    using assms
    by (auto simp: getModelPricing_def Let_def split: option.splits property.splits)
  then obtain i where "i < length entries" "entries ! i = (key, v)"
      "toLowerCase u key = toLowerCase u n"
    by (auto simp: find_Some_iff)
  then show ?thesis using n by (metis nth_mem)
qed

text \<open>
  C6. \<open>getModelPricing\<close> looks the normalized name up exactly and then falls back to a
  comparison of the lower-cased key with the lower-cased name. Evaluated on a catalog whose
  only key \<open>openai/GPT-4o\<close> contains the normalized name \<open>gpt-4o\<close> with surrounding text:
  the entry is not found, although the key includes the name case-insensitively; a key
  that differs in case only is found.
\<close>

theorem getModelPricing_substring_miss:
  "normalizeModelName u ''gpt-4o'' = Own ''gpt-4o''
   \<and> includes_str (toLowerCase u ''openai/GPT-4o'') (toLowerCase u ''gpt-4o'')
   \<and> getModelPricing u (Inr [(''openai/GPT-4o'', gpt4oPricing)]) ''gpt-4o'' = None
   \<and> getModelPricing u (Inr [(''GPT-4o'', gpt4oPricing)]) ''gpt-4o'' = Some (Own gpt4oPricing)"
  by (simp add: getModelPricing_def normalize_gpt4o toLowerCase_def toLowerChar_def isAscii_def
        objectGet_def propertyKey_def objectPrototypeNames_def)

text \<open>A model name that is a member of \<open>Object.prototype\<close> is not unknown to the lookup:
  \<open>getModelPricing\<close> returns the member, and the costs computed from it are \<open>NaN\<close>.\<close>

lemma calculateCost_inherited_member:
  "getModelPricing u (Inr []) ''toString'' = Some (Inherited ''toString'')"
  "PricingService_calculateCost u (Inr []) ''toString'' 1000 500 =
     Some \<lparr> s_inputCost = None, s_outputCost = None, s_totalCost = None, s_inputTokens = 1000,
            s_outputTokens = 500, s_model = ''toString'', s_tieredPricingApplied = False \<rparr>"
proof -
  show g: "getModelPricing u (Inr []) ''toString'' = Some (Inherited ''toString'')"
    by (simp add: getModelPricing_def normalize_toString objectGet_def propertyKey_def
          objectPrototypeNames_def)
  show "PricingService_calculateCost u (Inr []) ''toString'' 1000 500 =
     Some \<lparr> s_inputCost = None, s_outputCost = None, s_totalCost = None, s_inputTokens = 1000,
            s_outputTokens = 500, s_model = ''toString'', s_tieredPricingApplied = False \<rparr>"
    by (simp add: PricingService_calculateCost_def g calculateCostFromPricing_def Let_def
          simplifyPricing_def noPricingFields_def asTyped_def calculateCost_def)
qed

text \<open>
  C7 (as amended). For every model unknown to the pricing catalog (\<open>getModelPricing\<close>
  returns \<open>null\<close>), \<open>PricingService.calculateCost\<close> returns a cost object with zero
  \<open>inputCost\<close>, \<open>outputCost\<close> and \<open>totalCost\<close>, the given token counts and model name, and
  \<open>tieredPricingApplied = false\<close>.
\<close>

theorem calculateCost_unknown_model:
  "getModelPricing u pricingData m = None \<Longrightarrow>
     PricingService_calculateCost u pricingData m i j =
       Some \<lparr> s_inputCost = Some 0, s_outputCost = Some 0, s_totalCost = Some 0,
              s_inputTokens = i, s_outputTokens = j, s_model = m,
              s_tieredPricingApplied = False \<rparr>"
  by (simp add: PricingService_calculateCost_def)

theorem calculateCost_unknown_model_witness:
  "getModelPricing exampleLower (Inr [(''gpt-4o'', gpt4oPricing)]) ''mystery-model'' = None
   \<and> PricingService_calculateCost exampleLower (Inr [(''gpt-4o'', gpt4oPricing)])
         ''mystery-model'' 1000 500 =
       Some \<lparr> s_inputCost = Some 0, s_outputCost = Some 0, s_totalCost = Some 0,
              s_inputTokens = 1000, s_outputTokens = 500, s_model = ''mystery-model'',
              s_tieredPricingApplied = False \<rparr>"
proof -
  have h: "getModelPricing exampleLower (Inr [(''gpt-4o'', gpt4oPricing)]) ''mystery-model'' = None"
    by (simp add: getModelPricing_def normalize_mystery lower_mystery toLowerCase_def
          toLowerChar_def isAscii_def objectGet_def propertyKey_def objectPrototypeNames_def)
  show ?thesis using h calculateCost_unknown_model [OF h, of 1000 500] by simp
qed

text \<open>C7 as stated fails: for an unknown model the result is not \<open>null\<close>.\<close>

theorem calculateCost_unknown_model_counterexample:
  "getModelPricing exampleLower (Inr []) ''mystery-model'' = None
   \<and> PricingService_calculateCost exampleLower (Inr []) ''mystery-model'' 1000 500 \<noteq> None"
proof -
  have h: "getModelPricing exampleLower (Inr []) ''mystery-model'' = None"
    by (simp add: getModelPricing_def normalize_mystery objectGet_def propertyKey_def
          objectPrototypeNames_def)
  show ?thesis using h by (simp add: PricingService_calculateCost_def)
qed

subsection \<open>Streaming\<close>

lemma processLine_not_data:
  "\<not> startsWith line ''data: '' \<Longrightarrow> processLine parse str st line = Next st"
  by (simp add: processLine_def)

lemma processLine_Break_iff: "(processLine parse str st line = Break) = isDone line"
  by (auto simp: processLine_def isDone_def Let_def split: option.splits json.splits)

lemma processLine_payload:
  assumes "startsWith line ''data: ''" "trim (drop 6 line) \<noteq> ''[DONE]''"
    "parse (trim (drop 6 line)) = Some parsed" "parsed \<noteq> JNull"
  shows "processLine parse str st line = Next (applyPayload str st parsed)"
  using assms
  by (cases parsed)
     (auto simp: processLine_def Let_def applyPayload_def yieldOf_def deltaContent_def
           usageOf_def finishOf_def
           split: option.splits)

lemma processLine_live:
  assumes "\<not> isDone line"
  shows "processLine parse str st line =
           Next (case payloadOf parse line of None \<Rightarrow> st | Some p \<Rightarrow> applyPayload str st p)"
proof (cases "startsWith line ''data: ''")
  case False
  then show ?thesis by (simp add: processLine_not_data payloadOf_def)
next
  case True
  then have nd: "trim (drop 6 line) \<noteq> ''[DONE]''" using assms by (simp add: isDone_def)
  show ?thesis
  proof (cases "parse (trim (drop 6 line))")
    case None
    then show ?thesis using True nd by (simp add: processLine_def payloadOf_def)
  next
    case (Some parsed)
    show ?thesis
    proof (cases "parsed = JNull")
      case True
      then show ?thesis using Some \<open>startsWith line ''data: ''\<close> nd
        by (simp add: processLine_def payloadOf_def)
    next
      case False
      have "payloadOf parse line = Some parsed"
        using True Some False by (cases parsed) (simp_all add: payloadOf_def)
      then show ?thesis using True nd Some False by (simp add: processLine_payload)
    qed
  qed
qed

lemma processLines_live:
  "\<forall>l \<in> set ls. \<not> isDone l \<Longrightarrow>
     processLines parse str st ls =
       foldl (applyPayload str) st (List.map_filter (payloadOf parse) ls)"
proof (induction ls arbitrary: st)
  case Nil
  then show ?case by (simp add: map_filter_simps)
next
  case (Cons l ls)
  then show ?case
    by (cases "payloadOf parse l") (simp_all add: processLine_live map_filter_simps)
qed

lemma processLines_takeWhile:
  "processLines parse str st ls = processLines parse str st (takeWhile (\<lambda>l. \<not> isDone l) ls)"
proof (induction ls arbitrary: st)
  case Nil
  then show ?case by simp
next
  case (Cons l ls)
  show ?case
  proof (cases "isDone l")
    case True
    then have "processLine parse str st l = Break" by (simp add: processLine_Break_iff)
    then show ?thesis using True by simp
  next
    case False
    then show ?thesis using Cons by (simp add: processLine_live)
  qed
qed

lemma processLines_payloads:
  "processLines parse str st ls =
     foldl (applyPayload str) st
       (List.map_filter (payloadOf parse) (takeWhile (\<lambda>l. \<not> isDone l) ls))"
proof -
  have "\<forall>l \<in> set (takeWhile (\<lambda>l. \<not> isDone l) ls). \<not> isDone l"
    by (auto dest: set_takeWhileD)
  from processLines_live [OF this] show ?thesis
    using processLines_takeWhile [of parse str st ls] by simp
qed

lemma foldl_applyPayload:
  "yielded (foldl (applyPayload str) st ps) = yielded st @ concat (map yieldOf ps)"
  "fullText (foldl (applyPayload str) st ps)
     = fullText st @ concat (map (jsString str) (concat (map yieldOf ps)))"
  "usage (foldl (applyPayload str) st ps)
     = (case lastCarried (map usageOf ps) of Some u \<Rightarrow> Some u | None \<Rightarrow> usage st)"
  "finishReason (foldl (applyPayload str) st ps)
     = (case lastCarried (map finishOf ps) of Some x \<Rightarrow> x | None \<Rightarrow> finishReason st)"
  "buffer (foldl (applyPayload str) st ps) = buffer st"
proof (induction ps arbitrary: st)
  case Nil
  { case 1 show ?case by simp }
  { case 2 show ?case by simp }
  { case 3 show ?case by simp }
  { case 4 show ?case by simp }
  { case 5 show ?case by simp }
next
  case (Cons p ps)
  { case 1 show ?case by (simp add: Cons(1)) (simp add: applyPayload_def) }
  { case 2 show ?case by (simp add: Cons(2)) (simp add: applyPayload_def) }
  { case 3 show ?case by (simp add: Cons(3)) (simp add: applyPayload_def split: option.splits) }
  { case 4 show ?case by (simp add: Cons(4)) (simp add: applyPayload_def split: option.splits) }
  { case 5 show ?case by (simp add: Cons(5)) (simp add: applyPayload_def) }
qed

lemma processLines_append:
  "\<forall>l \<in> set xs. \<not> isDone l \<Longrightarrow>
     processLines parse str st (xs @ ys) = processLines parse str (processLines parse str st xs) ys"
proof (induction xs arbitrary: st)
  case Nil
  then show ?case by simp
next
  case (Cons l ls)
  then show ?case by (simp add: processLine_live)
qed

lemma processLines_inert:
  "\<forall>l \<in> set ls. \<not> startsWith l ''data: '' \<Longrightarrow> processLines parse str st ls = st"
  by (induction ls) (simp_all add: processLine_not_data)

lemma quiet_cases:
  assumes "quietAfterDone (xs @ ys)"
  shows "(\<forall>l \<in> set xs. \<not> isDone l) \<or>
         ((\<forall>l \<in> set ys. \<not> startsWith l ''data: '')
           \<and> takeWhile (\<lambda>l. \<not> isDone l) (xs @ ys) = takeWhile (\<lambda>l. \<not> isDone l) xs)"
proof (cases "\<forall>l \<in> set xs. \<not> isDone l")
  case True
  then show ?thesis by simp
next
  case False
  then obtain d where d: "d \<in> set xs" "\<not> \<not> isDone d" by blast
  have dw: "dropWhile (\<lambda>l. \<not> isDone l) (xs @ ys) = dropWhile (\<lambda>l. \<not> isDone l) xs @ ys"
    using d by (rule dropWhile_append1)
  have tw: "takeWhile (\<lambda>l. \<not> isDone l) (xs @ ys) = takeWhile (\<lambda>l. \<not> isDone l) xs"
    using d by (rule takeWhile_append1)
  have "dropWhile (\<lambda>l. \<not> isDone l) xs \<noteq> []" using d by (auto simp: dropWhile_eq_Nil_conv)
  then obtain e post where "dropWhile (\<lambda>l. \<not> isDone l) xs = e # post"
    by (cases "dropWhile (\<lambda>l. \<not> isDone l) xs") auto
  then have "\<forall>l \<in> set ys. \<not> startsWith l ''data: ''"
    using assms dw by (simp add: quietAfterDone_def list_all_iff)
  then show ?thesis using tw by simp
qed

lemma quiet_append_process:
  assumes "quietAfterDone (xs @ ys)"
  shows "processLines parse str (processLines parse str st xs) ys
           = processLines parse str st (xs @ ys)"
  using quiet_cases [OF assms]
proof
  assume "\<forall>l \<in> set xs. \<not> isDone l"
  then show ?thesis by (simp add: processLines_append)
next
  assume a: "(\<forall>l \<in> set ys. \<not> startsWith l ''data: '')
           \<and> takeWhile (\<lambda>l. \<not> isDone l) (xs @ ys) = takeWhile (\<lambda>l. \<not> isDone l) xs"
  have "processLines parse str st (xs @ ys) = processLines parse str st xs"
    using processLines_takeWhile [of parse str st "xs @ ys"]
      processLines_takeWhile [of parse str st xs] a by simp
  then show ?thesis using a by (simp add: processLines_inert)
qed

lemma quiet_append_right:
  assumes "quietAfterDone (xs @ ys)"
  shows "quietAfterDone ys"
  using quiet_cases [OF assms]
proof
  assume "\<forall>l \<in> set xs. \<not> isDone l"
  then have "dropWhile (\<lambda>l. \<not> isDone l) (xs @ ys) = dropWhile (\<lambda>l. \<not> isDone l) ys"
    by (simp add: dropWhile_append2)
  then show ?thesis using assms by (simp add: quietAfterDone_def)
next
  assume a: "(\<forall>l \<in> set ys. \<not> startsWith l ''data: '')
           \<and> takeWhile (\<lambda>l. \<not> isDone l) (xs @ ys) = takeWhile (\<lambda>l. \<not> isDone l) xs"
  then have "\<forall>l \<in> set ys. \<not> isDone l" by (simp add: isDone_def)
  then have dn: "dropWhile (\<lambda>l. \<not> isDone l) ys = []" by simp
  show ?thesis unfolding quietAfterDone_def dn by simp
qed

lemma splitNewline_nonempty: "splitNewline s \<noteq> []"
  by (induction s) (auto split: list.splits)

lemma splitNewline_append:
  "splitNewline (a @ b) = butlast (splitNewline a) @ splitNewline (last (splitNewline a) @ b)"
proof (induction a)
  case Nil
  then show ?case by simp
next
  case (Cons c cs)
  obtain x xs where sp: "splitNewline cs = x # xs"
    using splitNewline_nonempty [of cs] by (cases "splitNewline cs") auto
  show ?case
  proof (cases "c = newline")
    case True
    then show ?thesis using Cons.IH sp by simp
  next
    case False
    show ?thesis
    proof (cases xs)
      case Nil
      then show ?thesis using Cons.IH sp False by simp
    next
      case (Cons y ys)
      then show ?thesis using Cons.IH sp False by simp
    qed
  qed
qed

lemma processLines_buffer:
  "processLines parse str (st\<lparr> buffer := b \<rparr>) ls = (processLines parse str st ls)\<lparr> buffer := b \<rparr>"
proof -
  have a: "applyPayload str (st\<lparr> buffer := b \<rparr>) p = (applyPayload str st p)\<lparr> buffer := b \<rparr>"
    for st p
    by (simp add: applyPayload_def split: option.splits)
  have "foldl (applyPayload str) (st\<lparr> buffer := b \<rparr>) ps = (foldl (applyPayload str) st ps)\<lparr> buffer := b \<rparr>"
    for ps
    by (induction ps arbitrary: st) (simp_all add: a)
  then show ?thesis by (simp add: processLines_payloads)
qed

lemma splitNewline_no_newline: "newline \<notin> set b \<Longrightarrow> splitNewline b = [b]"
  by (induction b) auto

lemma last_splitNewline: "newline \<notin> set (last (splitNewline s))"
proof (induction s)
  case Nil
  then show ?case by simp
next
  case (Cons c cs)
  obtain x xs where sp: "splitNewline cs = x # xs"
    using splitNewline_nonempty [of cs] by (cases "splitNewline cs") auto
  show ?case using Cons sp by (cases xs) auto
qed

lemma processLines_keeps_buffer: "buffer (processLines parse str st ls) = buffer st"
  by (simp add: processLines_payloads foldl_applyPayload)

lemma readLoop_lines:
  "newline \<notin> set (buffer st) \<Longrightarrow>
   quietAfterDone (butlast (splitNewline (buffer st @ concat reads))) \<Longrightarrow>
     readLoop parse str st reads =
       (processLines parse str st (butlast (splitNewline (buffer st @ concat reads))))
         \<lparr> buffer := last (splitNewline (buffer st @ concat reads)) \<rparr>"
proof (induction reads arbitrary: st)
  case Nil
  then show ?case by (simp add: splitNewline_no_newline)
next
  case (Cons r rs)
  let ?ls = "splitNewline (buffer st @ r)"
  let ?rest = "splitNewline (last ?ls @ concat rs)"
  let ?st1 = "processLines parse str (st\<lparr> buffer := last ?ls \<rparr>) (butlast ?ls)"
  have whole: "splitNewline (buffer st @ concat (r # rs)) = butlast ?ls @ ?rest"
    using splitNewline_append [of "buffer st @ r" "concat rs"] by simp
  have ne: "?rest \<noteq> []" by (rule splitNewline_nonempty)
  have bl: "butlast (splitNewline (buffer st @ concat (r # rs))) = butlast ?ls @ butlast ?rest"
    and la: "last (splitNewline (buffer st @ concat (r # rs))) = last ?rest"
    using whole ne by (simp_all add: butlast_append)
  have b1: "buffer ?st1 = last ?ls" by (simp add: processLines_keeps_buffer)
  have q: "quietAfterDone (butlast ?ls @ butlast ?rest)"
    using Cons.prems(2) unfolding bl .
  have q2: "quietAfterDone (butlast ?rest)" using q by (rule quiet_append_right)
  have "readLoop parse str st (r # rs) = readLoop parse str ?st1 rs" by (simp add: Let_def)
  also have "\<dots> = (processLines parse str ?st1 (butlast ?rest))\<lparr> buffer := last ?rest \<rparr>"
    using Cons.IH [of ?st1] q2 last_splitNewline [of "buffer st @ r"] unfolding b1 by simp
  also have "\<dots> = (processLines parse str (processLines parse str st (butlast ?ls)) (butlast ?rest))
                     \<lparr> buffer := last ?rest \<rparr>"
    by (simp add: processLines_buffer)
  also have "\<dots> = (processLines parse str st (butlast ?ls @ butlast ?rest))\<lparr> buffer := last ?rest \<rparr>"
    using quiet_append_process [OF q] by simp
  finally show ?case unfolding bl la .
qed

lemma readLoop_text:
  "fullText st = concat (map (jsString str) (yielded st)) \<Longrightarrow>
     fullText (readLoop parse str st reads)
       = concat (map (jsString str) (yielded (readLoop parse str st reads)))"
proof (induction reads arbitrary: st)
  case Nil
  then show ?case by simp
next
  case (Cons chunk rest)
  let ?ls = "splitNewline (buffer st @ chunk)"
  let ?st1 = "processLines parse str (st\<lparr> buffer := last ?ls \<rparr>) (butlast ?ls)"
  have "fullText ?st1 = concat (map (jsString str) (yielded ?st1))"
    using Cons.prems by (simp add: processLines_payloads foldl_applyPayload)
  from Cons.IH [OF this] show ?case by (simp add: Let_def)
qed

lemma streamText_quiet:
  assumes "quietAfterDone (sseLines (concat reads))"
  shows "deepseek_streamText parse str sh (Body reads None) = sseOutcome parse str (concat reads)"
proof -
  let ?ls = "butlast (splitNewline (concat reads))"
  let ?st = "readLoop parse str initialStream reads"
  have i: "buffer initialStream = []" "yielded initialStream = []" "fullText initialStream = []"
      "usage initialStream = None" "finishReason initialStream = JStr ''stop''"
    by (simp_all add: initialStream_def)
  have "?st = (processLines parse str initialStream ?ls)
                \<lparr> buffer := last (splitNewline (concat reads)) \<rparr>"
    using readLoop_lines [of initialStream reads parse str] assms
    by (simp add: i sseLines_def)
  then have f: "yielded ?st = concat (map yieldOf (ssePayloads parse (concat reads)))"
      "fullText ?st = concat (map (jsString str) (concat (map yieldOf (ssePayloads parse (concat reads)))))"
      "usage ?st = lastCarried (map usageOf (ssePayloads parse (concat reads)))"
      "finishReason ?st = (case lastCarried (map finishOf (ssePayloads parse (concat reads))) of
                             Some x \<Rightarrow> x | None \<Rightarrow> JStr ''stop'')"
    by (simp_all add: processLines_payloads foldl_applyPayload i ssePayloads_def sseLines_def
          split: option.splits)
  show ?thesis
    by (simp add: deepseek_streamText_def sseOutcome_def Let_def f del: readLoop.simps)
qed


lemma isDone_data: "isDone (''data: '' @ p) = (trim p = ''[DONE]'')"
  by (simp add: isDone_def)

lemma payloadOf_data:
  "parse (trim p) = Some parsed \<Longrightarrow> parsed \<noteq> JNull
     \<Longrightarrow> payloadOf parse (''data: '' @ p) = Some parsed"
  by (cases parsed) (simp_all add: payloadOf_def)

lemma trim_payloads:
  "trim payloadHe = payloadHe" "trim payloadLlo = payloadLlo" "trim ''[DONE]'' = ''[DONE]''"
  "payloadHe \<noteq> ''[DONE]''" "payloadLlo \<noteq> ''[DONE]''"
  by code_simp+

lemma split_sse_spaced:
  "sseLines (sseBody ''data: '') =
     [''data: '' @ payloadHe, ''data: '' @ payloadLlo, ''data: [DONE]'']"
  by (simp add: sseLines_def sseBody_def payloadHe_def payloadLlo_def newline_def)

lemma yieldOf_delta: "s \<noteq> [] \<Longrightarrow> yieldOf (deltaJson s) = [JStr s]"
  by (simp add: yieldOf_def deltaContent_def deltaJson_def)

lemma carried_delta: "usageOf (deltaJson s) = None" "finishOf (deltaJson s) = None"
  by (simp_all add: usageOf_def finishOf_def deltaJson_def truthyOpt_def)

lemma sseOutcome_example:
  assumes "parse payloadHe = Some (deltaJson ''He'')" "parse payloadLlo = Some (deltaJson ''llo'')"
  shows "sseOutcome parse str (sseBody ''data: '') =
           \<lparr> chunks = [JStr ''He'', JStr ''llo''],
             completion = \<lparr> responseText = Some ''Hello'', c_usage = None,
                            c_finishReason = Some (JStr ''stop''), c_error = None \<rparr>,
             thrown = None \<rparr>"
proof -
  have q: "isDone (''data: '' @ ''[DONE]'')" "\<not> isDone (''data: '' @ payloadHe)"
      "\<not> isDone (''data: '' @ payloadLlo)"
    unfolding isDone_data by (simp_all add: trim_payloads)
  have n: "deltaJson s \<noteq> JNull" for s by (simp add: deltaJson_def)
  have p: "payloadOf parse (''data: '' @ payloadHe) = Some (deltaJson ''He'')"
      "payloadOf parse (''data: '' @ payloadLlo) = Some (deltaJson ''llo'')"
    using assms n payloadOf_data [of parse payloadHe "deltaJson ''He''"]
      payloadOf_data [of parse payloadLlo "deltaJson ''llo''"]
    by (simp_all add: trim_payloads)
  have "ssePayloads parse (sseBody ''data: '') = [deltaJson ''He'', deltaJson ''llo'']"
    unfolding ssePayloads_def split_sse_spaced using q p by (simp add: map_filter_simps)
  then show ?thesis
    by (simp add: sseOutcome_def Let_def yieldOf_delta carried_delta jsString_def)
qed

lemma quiet_example: "quietAfterDone (sseLines (sseBody ''data: ''))"
proof -
  have q: "isDone (''data: '' @ ''[DONE]'')" "\<not> isDone (''data: '' @ payloadHe)"
      "\<not> isDone (''data: '' @ payloadLlo)"
    unfolding isDone_data by (simp_all add: trim_payloads)
  show ?thesis unfolding split_sse_spaced quietAfterDone_def using q by simp
qed

lemma exampleParse_payloads:
  "exampleParse payloadHe = Some (deltaJson ''He'')"
  "exampleParse payloadLlo = Some (deltaJson ''llo'')"
  "exampleParse payloadEnd = Some endJson"
  by (simp_all add: exampleParse_def payloadHe_def payloadLlo_def payloadEnd_def)

lemma usageReads_quiet: "quietAfterDone (sseLines (concat usageReads))"
  by code_simp

lemma usageReads_outcome:
  "sseOutcome exampleParse (\<lambda>v. []) (concat usageReads) =
     \<lparr> chunks = [JStr ''He'', JStr ''llo''],
       completion =
         \<lparr> responseText = Some ''Hello'',
           c_usage = Some \<lparr> promptTokens = JNum 3, completionTokens = JNum 2, totalTokens = JNum 5 \<rparr>,
           c_finishReason = Some (JStr ''length''), c_error = None \<rparr>,
       thrown = None \<rparr>"
  by code_simp


lemma exampleReads_body: "concat exampleReads = sseBody ''data: ''"
  by (simp add: exampleReads_def)

text \<open>
  C2 (as amended). For every SSE response body that ends cleanly, however it is cut into
  reads: the adapter records a success tracking record whose response text is the
  concatenation of the yielded chunks. When no line starting with \<open>data: \<close> follows the
  first terminator line, the adapter splits the body on newlines into its
  newline-terminated lines, treats only lines starting with \<open>data: \<close> as payloads (the
  rest of the line, trimmed), stops at the first payload \<open>[DONE]\<close>, silently skips
  payloads whose JSON does not parse, yields the truthy content delta of each other
  payload as a chunk in upstream order, and records the usage and the finish reason of
  the last payloads that carried them, no usage and \<open>stop\<close> when none did. In particular
  the sequence \<open>data: {"choices":[{"delta":{"content":"He"}}]}\<close>,
  \<open>data: {"choices":[{"delta":{"content":"llo"}}]}\<close>, \<open>data: [DONE]\<close> (with the space after
  the colon, each line ended by a newline) yields \<open>He\<close> then \<open>llo\<close> and completes the
  record with response text \<open>Hello\<close>, no usage and finish reason \<open>stop\<close>.
\<close>

theorem deepseek_streamText_sse:
  "thrown (deepseek_streamText parse str sh (Body reads None)) = None
   \<and> recordsSuccess (completion (deepseek_streamText parse str sh (Body reads None)))
   \<and> responseText (completion (deepseek_streamText parse str sh (Body reads None)))
       = Some (concat (map (jsString str) (chunks (deepseek_streamText parse str sh (Body reads None)))))
   \<and> (quietAfterDone (sseLines (concat reads)) \<longrightarrow>
        deepseek_streamText parse str sh (Body reads None) = sseOutcome parse str (concat reads))
   \<and> (parse payloadHe = Some (deltaJson ''He'') \<and> parse payloadLlo = Some (deltaJson ''llo'')
        \<and> concat reads = sseBody ''data: '' \<longrightarrow>
        chunks (deepseek_streamText parse str sh (Body reads None)) = [JStr ''He'', JStr ''llo'']
      \<and> completion (deepseek_streamText parse str sh (Body reads None))
          = \<lparr> responseText = Some ''Hello'', c_usage = None,
              c_finishReason = Some (JStr ''stop''), c_error = None \<rparr>)"
proof (intro conjI impI)
  show "thrown (deepseek_streamText parse str sh (Body reads None)) = None"
    by (simp add: deepseek_streamText_def Let_def)
  show "recordsSuccess (completion (deepseek_streamText parse str sh (Body reads None)))"
    by (simp add: deepseek_streamText_def Let_def recordsSuccess_def)
  have "fullText initialStream = concat (map (jsString str) (yielded initialStream))"
    by (simp add: initialStream_def)
  from readLoop_text [OF this, of parse reads]
  show "responseText (completion (deepseek_streamText parse str sh (Body reads None)))
       = Some (concat (map (jsString str) (chunks (deepseek_streamText parse str sh (Body reads None)))))"
    by (simp add: deepseek_streamText_def Let_def)
  show "deepseek_streamText parse str sh (Body reads None) = sseOutcome parse str (concat reads)"
    if "quietAfterDone (sseLines (concat reads))"
    using that by (rule streamText_quiet)
  assume ex: "parse payloadHe = Some (deltaJson ''He'') \<and> parse payloadLlo = Some (deltaJson ''llo'')
        \<and> concat reads = sseBody ''data: ''"
  then have "deepseek_streamText parse str sh (Body reads None) = sseOutcome parse str (sseBody ''data: '')"
    using streamText_quiet [of reads parse str sh] quiet_example by simp
  then have e: "deepseek_streamText parse str sh (Body reads None) =
           \<lparr> chunks = [JStr ''He'', JStr ''llo''],
             completion = \<lparr> responseText = Some ''Hello'', c_usage = None,
                            c_finishReason = Some (JStr ''stop''), c_error = None \<rparr>,
             thrown = None \<rparr>"
    using ex sseOutcome_example [of parse str] by simp
  show "chunks (deepseek_streamText parse str sh (Body reads None)) = [JStr ''He'', JStr ''llo'']"
    unfolding e by simp
  show "completion (deepseek_streamText parse str sh (Body reads None))
          = \<lparr> responseText = Some ''Hello'', c_usage = None,
              c_finishReason = Some (JStr ''stop''), c_error = None \<rparr>"
    unfolding e by simp
qed

theorem deepseek_streamText_sse_witness:
  "quietAfterDone (sseLines (concat usageReads))
   \<and> deepseek_streamText exampleParse (\<lambda>v. []) (\<lambda>n. []) (Body usageReads None) =
       \<lparr> chunks = [JStr ''He'', JStr ''llo''],
         completion =
           \<lparr> responseText = Some ''Hello'',
             c_usage = Some \<lparr> promptTokens = JNum 3, completionTokens = JNum 2,
                              totalTokens = JNum 5 \<rparr>,
             c_finishReason = Some (JStr ''length''), c_error = None \<rparr>,
         thrown = None \<rparr>
   \<and> recordsSuccess (completion
         (deepseek_streamText exampleParse (\<lambda>v. []) (\<lambda>n. []) (Body usageReads None)))
   \<and> exampleParse payloadHe = Some (deltaJson ''He'')
   \<and> exampleParse payloadLlo = Some (deltaJson ''llo'')
   \<and> concat exampleReads = sseBody ''data: ''
   \<and> chunks (deepseek_streamText exampleParse (\<lambda>v. []) (\<lambda>n. []) (Body exampleReads None))
       = [JStr ''He'', JStr ''llo'']
   \<and> responseText (completion
         (deepseek_streamText exampleParse (\<lambda>v. []) (\<lambda>n. []) (Body exampleReads None)))
       = Some ''Hello''"
proof -
  have u: "deepseek_streamText exampleParse (\<lambda>v. []) (\<lambda>n. []) (Body usageReads None)
             = sseOutcome exampleParse (\<lambda>v. []) (concat usageReads)"
      "recordsSuccess (completion
         (deepseek_streamText exampleParse (\<lambda>v. []) (\<lambda>n. []) (Body usageReads None)))"
    using deepseek_streamText_sse [of exampleParse "\<lambda>v. []" "\<lambda>n. []" usageReads] usageReads_quiet
    by blast+
  have e: "chunks (deepseek_streamText exampleParse (\<lambda>v. []) (\<lambda>n. []) (Body exampleReads None))
             = [JStr ''He'', JStr ''llo'']
           \<and> completion (deepseek_streamText exampleParse (\<lambda>v. []) (\<lambda>n. []) (Body exampleReads None))
             = \<lparr> responseText = Some ''Hello'', c_usage = None,
                 c_finishReason = Some (JStr ''stop''), c_error = None \<rparr>"
    using deepseek_streamText_sse [of exampleParse "\<lambda>v. []" "\<lambda>n. []" exampleReads]
      exampleParse_payloads exampleReads_body
    by blast
  show ?thesis
    using u e usageReads_quiet usageReads_outcome exampleParse_payloads exampleReads_body by simp
qed

text \<open>
  C2 as stated fails in three ways. On its own example: the lines \<open>data:{"choices":\<dots>}\<close>
  written without a space after the colon do not start with \<open>data: \<close>, so nothing is
  yielded and the recorded response text is empty. On a body whose terminator is
  followed by a payload that arrives in a later read: \<open>break\<close> leaves only the loop over
  the lines of the current read, so the later payload is still yielded (it is not when
  the same body arrives in one read). On a body whose last line has no newline: that line
  stays in the buffer and is never processed.
\<close>

theorem deepseek_streamText_counterexample:
  "exampleParse payloadHe = Some (deltaJson ''He'')
   \<and> exampleParse payloadLlo = Some (deltaJson ''llo'')
   \<and> sseBody ''data:'' = ''data:'' @ payloadHe @ [newline] @ ''data:'' @ payloadLlo @ [newline]
         @ ''data:[DONE]'' @ [newline]
   \<and> chunks (deepseek_streamText exampleParse (\<lambda>v. []) (\<lambda>n. []) (Body [sseBody ''data:''] None)) = []
   \<and> responseText (completion
         (deepseek_streamText exampleParse (\<lambda>v. []) (\<lambda>n. []) (Body [sseBody ''data:''] None)))
       = Some []
   \<and> splitNewline (concat lateReads) = [''data: [DONE]'', ''data: '' @ payloadHe, []]
   \<and> isDone ''data: [DONE]''
   \<and> chunks (deepseek_streamText exampleParse (\<lambda>v. []) (\<lambda>n. []) (Body lateReads None))
       = [JStr ''He'']
   \<and> chunks (deepseek_streamText exampleParse (\<lambda>v. []) (\<lambda>n. []) (Body [concat lateReads] None))
       = []
   \<and> splitNewline (concat openReads) = [''data: '' @ payloadHe]
   \<and> chunks (deepseek_streamText exampleParse (\<lambda>v. []) (\<lambda>n. []) (Body openReads None)) = []"
proof -
  have b: "sseBody ''data:'' = ''data:'' @ payloadHe @ [newline] @ ''data:'' @ payloadLlo @ [newline]
         @ ''data:[DONE]'' @ [newline]"
    by (simp add: sseBody_def)
  have a: "chunks (deepseek_streamText exampleParse (\<lambda>v. []) (\<lambda>n. []) (Body [sseBody ''data:''] None)) = []"
    "responseText (completion
         (deepseek_streamText exampleParse (\<lambda>v. []) (\<lambda>n. []) (Body [sseBody ''data:''] None)))
       = Some []"
    by code_simp+
  have l: "splitNewline (concat lateReads) = [''data: [DONE]'', ''data: '' @ payloadHe, []]"
    "isDone ''data: [DONE]''"
    "chunks (deepseek_streamText exampleParse (\<lambda>v. []) (\<lambda>n. []) (Body lateReads None))
       = [JStr ''He'']"
    "chunks (deepseek_streamText exampleParse (\<lambda>v. []) (\<lambda>n. []) (Body [concat lateReads] None))
       = []"
    by code_simp+
  have o: "splitNewline (concat openReads) = [''data: '' @ payloadHe]"
    "chunks (deepseek_streamText exampleParse (\<lambda>v. []) (\<lambda>n. []) (Body openReads None)) = []"
    by code_simp+
  show ?thesis using exampleParse_payloads(1,2) b a l o by blast
qed

subsection \<open>Message indices\<close>

lemma sorted_last_is_Max:
  fixes xs :: "int list"
  assumes "sorted xs" "xs \<noteq> []"
  shows "last xs = Max (set xs)"
proof -
  have "last xs \<in> set xs" using assms by simp
  moreover have "\<forall>y \<in> set xs. y \<le> last xs"
    using assms
    by (metis in_set_conv_nth last_conv_nth sorted_nth_mono length_greater_0_conv
        less_Suc_eq_le Suc_pred' order_refl)
  ultimately have "Max (set xs) = last xs" by (intro Max_eqI) auto
  then show ?thesis by simp
qed

lemma lastIndex_formula:
  fixes xs :: "int list"
  shows "(case take 1 (rev (sort xs)) of [] \<Rightarrow> - 1 | i # _ \<Rightarrow> i) + 1
           = (if xs = [] then 0 else Max (set xs) + 1)"
proof (cases "xs = []")
  case True
  then show ?thesis by simp
next
  case False
  then have ne: "sort xs \<noteq> []" by (metis length_sort length_0_conv)
  then obtain ys y where s: "sort xs = ys @ [y]" by (metis rev_exhaust)
  have "y = last (sort xs)" using s by simp
  also have "\<dots> = Max (set (sort xs))" using sorted_last_is_Max [OF sorted_sort ne] .
  finally have "y = Max (set xs)" by simp
  then show ?thesis using False s by simp
qed

lemma Max_upto_int:
  "n > 0 \<Longrightarrow> Max (set (map int [0..<n])) = int n - 1"
proof -
  assume n: "n > 0"
  have "Max (int ` {0..<n}) = int n - 1"
  proof (intro Max_eqI)
    show "finite (int ` {0..<n})" by simp
    show "\<And>y. y \<in> int ` {0..<n} \<Longrightarrow> y \<le> int n - 1" by auto
    show "int n - 1 \<in> int ` {0..<n}" using n by (intro image_eqI [where x = "n - 1"]) auto
  qed
  then show ?thesis by simp
qed

lemma addMessage_index:
  assumes "addMessage db sid r c tool parent meta newId tnow = Inr (msg, db')"
  shows "messageIndex msg =
           (if sessionMessages db sid = [] then 0
            else Max (messageIndex ` set (sessionMessages db sid)) + 1)"
    and "m_sessionId msg = sid"
    and "conversationMessages db' = conversationMessages db @ [msg]"
  using assms lastIndex_formula [of "map messageIndex (sessionMessages db sid)"]
  by (auto simp: addMessage_def Let_def split: if_splits)

lemma addMessage_sessionMessages:
  assumes "addMessage db sid r c tool parent meta newId tnow = Inr (msg, db')"
  shows "sessionMessages db' s = sessionMessages db s @ (if sid = s then [msg] else [])"
  using addMessage_index(2,3) [OF assms] by (simp add: sessionMessages_def)

lemma addMessage_dense:
  assumes a: "addMessage db sid r c tool parent meta newId tnow = Inr (msg, db')"
    and d: "denseIndices db s"
  shows "denseIndices db' s"
proof (cases "sid = s")
  case False
  then show ?thesis using d addMessage_sessionMessages [OF a, of s] by (simp add: denseIndices_def)
next
  case True
  let ?n = "length (sessionMessages db s)"
  have idx: "messageIndex msg = int ?n"
  proof (cases "sessionMessages db s = []")
    case True
    then show ?thesis using addMessage_index(1) [OF a] \<open>sid = s\<close> by simp
  next
    case False
    then have "?n > 0" by simp
    moreover have "messageIndex ` set (sessionMessages db s) = set (map int [0..<?n])"
      using d by (metis denseIndices_def set_map)
    ultimately have "Max (messageIndex ` set (sessionMessages db s)) = int ?n - 1"
      using Max_upto_int by simp
    then show ?thesis using addMessage_index(1) [OF a] \<open>sid = s\<close> False by simp
  qed
  show ?thesis
    using d addMessage_sessionMessages [OF a, of s] True idx
    by (simp add: denseIndices_def)
qed

lemma addMessages_dense:
  "denseIndices db s \<Longrightarrow> addMessages db calls = (db', inserted) \<Longrightarrow>
     denseIndices db' s
     \<and> sessionMessages db' s = sessionMessages db s @ filter (\<lambda>m. m_sessionId m = s) inserted"
proof (induction calls arbitrary: db db' inserted)
  case Nil
  then show ?case by simp
next
  case (Cons c cs)
  show ?case
  proof (cases "addMessage db (call_sessionId c) (call_role c) (call_content c) (call_toolName c)
             (call_parentMessageId c) (call_metadata c) (call_newId c) (call_now c)")
    case (Inl err)
    then have "addMessages db cs = (db', inserted)" using Cons.prems(2) by simp
    then show ?thesis using Cons.IH [OF Cons.prems(1)] by simp
  next
    case (Inr res)
    obtain msg db1 where res: "res = (msg, db1)" by (cases res)
    obtain db2 ms where rest: "addMessages db1 cs = (db2, ms)" by (cases "addMessages db1 cs")
    have eq: "db' = db2" "inserted = msg # ms"
      using Cons.prems(2) Inr res rest by simp_all
    have d1: "denseIndices db1 s" using addMessage_dense Inr res Cons.prems(1) by blast
    have s1: "sessionMessages db1 s = sessionMessages db s @ (if call_sessionId c = s then [msg] else [])"
      using addMessage_sessionMessages Inr res by blast
    have sid: "m_sessionId msg = call_sessionId c" using addMessage_index(2) Inr res by blast
    show ?thesis using Cons.IH [OF d1 rest] eq s1 sid by auto
  qed
qed

lemma addMessage_succeeds_iff:
  "(\<exists>res. addMessage db sid r c tool parent meta newId tnow = Inr res)
     = (newId \<notin> set (map m_id (conversationMessages db))
        \<and> (foreignKeys db \<longrightarrow> sessionExists db sid))"
proof -
  let ?xs = "map messageIndex (sessionMessages db sid)"
  let ?idx = "(case take 1 (rev (sort ?xs)) of [] \<Rightarrow> - 1 | i # _ \<Rightarrow> i) + 1"
  have fresh: "(sid, ?idx) \<notin> set (map (\<lambda>x. (m_sessionId x, messageIndex x)) (conversationMessages db))"
  proof
    assume "(sid, ?idx) \<in> set (map (\<lambda>x. (m_sessionId x, messageIndex x)) (conversationMessages db))"
    then obtain x where x: "x \<in> set (conversationMessages db)" "m_sessionId x = sid"
        "messageIndex x = ?idx" by auto
    have "x \<in> set (sessionMessages db sid)" using x(1,2) by (simp add: sessionMessages_def)
    then have mem: "messageIndex x \<in> set ?xs" by simp
    then have ne: "?xs \<noteq> []" by auto
    have "messageIndex x \<le> Max (set ?xs)" using mem by simp
    moreover have "?idx = Max (set ?xs) + 1" using lastIndex_formula [of ?xs] ne by simp
    ultimately show False using x(3) by simp
  qed
  show ?thesis using fresh by (auto simp: addMessage_def Let_def messageInsertable_def)
qed

lemma example_run:
  "map messageIndex (snd (addMessages exampleDb exampleCalls)) = [0, 1, 2]"
  "map content (snd (addMessages exampleDb exampleCalls)) = [''a'', ''b'', ''c'']"
  "map m_sessionId (snd (addMessages exampleDb exampleCalls)) = [''s1'', ''s1'', ''s1'']"
  by code_simp+

lemma example_empty: "sessionMessages exampleDb ''s1'' = []"
  by (simp add: sessionMessages_def exampleDb_def)

text \<open>
  C3. Each message inserted by \<open>addMessage\<close> receives the index one plus the largest existing
  index of its session, or 0 when the session has no messages. So after any sequence of
  \<open>addMessage\<close> calls (on this and other sessions) starting from a session without messages,
  the session's rows are exactly the messages inserted for it, their indices in insertion
  order are \<open>0, 1, \<dots>, n - 1\<close>, the set of indices is \<open>{0, \<dots>, n - 1}\<close>, they strictly increase
  and no two messages share an index. A call inserts iff its row id is new and (when
  foreign keys are enforced) the session exists.
\<close>

theorem addMessage_indices:
  "(addMessage db sid r c tool parent meta newId tnow = Inr (msg, db1) \<longrightarrow>
      messageIndex msg =
        (if sessionMessages db sid = [] then 0
         else Max (messageIndex ` set (sessionMessages db sid)) + 1))
   \<and> (sessionMessages db0 s = [] \<and> addMessages db0 calls = (db', inserted) \<longrightarrow>
        sessionMessages db' s = filter (\<lambda>m. m_sessionId m = s) inserted
      \<and> map messageIndex (sessionMessages db' s) = map int [0..<length (sessionMessages db' s)]
      \<and> set (map messageIndex (sessionMessages db' s)) = {0..<int (length (sessionMessages db' s))}
      \<and> sorted_wrt (<) (map messageIndex (sessionMessages db' s))
      \<and> distinct (map messageIndex (sessionMessages db' s)))
   \<and> (\<exists>res. addMessage db sid r c tool parent meta newId tnow = Inr res)
       = (newId \<notin> set (map m_id (conversationMessages db))
          \<and> (foreignKeys db \<longrightarrow> sessionExists db sid))"
proof (intro conjI impI)
  assume "addMessage db sid r c tool parent meta newId tnow = Inr (msg, db1)"
  then show "messageIndex msg =
        (if sessionMessages db sid = [] then 0
         else Max (messageIndex ` set (sessionMessages db sid)) + 1)"
    by (rule addMessage_index(1))
next
  assume a: "sessionMessages db0 s = [] \<and> addMessages db0 calls = (db', inserted)"
  then have d0: "denseIndices db0 s" by (simp add: denseIndices_def)
  have r: "denseIndices db' s"
      "sessionMessages db' s = sessionMessages db0 s @ filter (\<lambda>m. m_sessionId m = s) inserted"
    using addMessages_dense [OF d0] a by blast+
  let ?n = "length (sessionMessages db' s)"
  show "sessionMessages db' s = filter (\<lambda>m. m_sessionId m = s) inserted" using r(2) a by simp
  show idx: "map messageIndex (sessionMessages db' s) = map int [0..<?n]"
    using r(1) by (simp add: denseIndices_def)
  show "set (map messageIndex (sessionMessages db' s)) = {0..<int ?n}"
  proof -
    have "set (map int [0..<?n]) = {0..<int ?n}"
      by (simp add: image_int_atLeastLessThan)
    then show ?thesis using idx by simp
  qed
  show "sorted_wrt (<) (map messageIndex (sessionMessages db' s))"
    unfolding idx by (simp add: sorted_wrt_map)
  show "distinct (map messageIndex (sessionMessages db' s))"
    unfolding idx by (simp add: distinct_map)
next
  show "(\<exists>res. addMessage db sid r c tool parent meta newId tnow = Inr res)
       = (newId \<notin> set (map m_id (conversationMessages db))
          \<and> (foreignKeys db \<longrightarrow> sessionExists db sid))"
    by (rule addMessage_succeeds_iff)
qed

theorem addMessage_indices_witness:
  "sessionMessages exampleDb ''s1'' = []
   \<and> map content (snd (addMessages exampleDb exampleCalls)) = [''a'', ''b'', ''c'']
   \<and> map messageIndex (sessionMessages (fst (addMessages exampleDb exampleCalls)) ''s1'') = [0, 1, 2]
   \<and> set (map messageIndex (sessionMessages (fst (addMessages exampleDb exampleCalls)) ''s1'')) = {0, 1, 2}"
proof -
  have run: "addMessages exampleDb exampleCalls
               = (fst (addMessages exampleDb exampleCalls), snd (addMessages exampleDb exampleCalls))"
    by simp
  have sess: "filter (\<lambda>m. m_sessionId m = ''s1'') (snd (addMessages exampleDb exampleCalls))
               = snd (addMessages exampleDb exampleCalls)"
    using example_run(3) by (auto simp: filter_id_conv)
  have len: "length (snd (addMessages exampleDb exampleCalls)) = 3"
    using example_run(1) by (metis length_map length_Cons list.size(3) numeral_3_eq_3)
  show ?thesis
    using addMessage_indices [of exampleDb "''s1''" User "''a''" None None None "''m-a''" 1 _ _
        exampleDb "''s1''" exampleCalls "fst (addMessages exampleDb exampleCalls)"
        "snd (addMessages exampleDb exampleCalls)"]
      example_empty run sess len example_run
    by (simp add: upt_rec)
qed

subsection \<open>File rows\<close>

lemma fileKeys_updateFileAccess:
  "map fileKey (hashedRows (updateFileAccess i tnow n rows)) = map fileKey (hashedRows rows)"
  by (induction rows) (auto simp: hashedRows_def updateFileAccess_def fileKey_def)

lemma fileKeys_fold_update:
  "map fileKey (hashedRows (fold (\<lambda>(i, n). updateFileAccess i tnow n) us rows))
     = map fileKey (hashedRows rows)"
  by (induction us arbitrary: rows) (auto simp: fileKeys_updateFileAccess)

lemma length_fold_update:
  "length (fold (\<lambda>(i, n). updateFileAccess i tnow n) us rows) = length rows"
  by (induction us arbitrary: rows) (auto simp: updateFileAccess_def)

lemma if_Inr_result:
  "(if P then Inr (db\<lparr> conversationFiles := X \<rparr>) else Inl e) = Inr db'
     \<Longrightarrow> P \<and> conversationFiles db' = X"
  by (auto split: if_splits)

lemma addFiles_rows:
  assumes "addFiles sha256 db sid files genId tnow = Inr db'"
  shows "\<exists>us newRows. filesInsertable db newRows
           \<and> conversationFiles db' =
               fold (\<lambda>(i, n). updateFileAccess i tnow n) us (conversationFiles db @ newRows)"
proof -
  from if_Inr_result [OF assms [unfolded addFiles_def Let_def]] show ?thesis
    by blast
qed

lemma addFiles_preserves_unique:
  assumes u: "uniqueFileKeys db"
    and a: "addFiles sha256 db sid files genId tnow = Inr db'"
  shows "uniqueFileKeys db'"
proof -
  obtain us newRows where ins: "filesInsertable db newRows"
    and rows: "conversationFiles db' =
               fold (\<lambda>(i, n). updateFileAccess i tnow n) us (conversationFiles db @ newRows)"
    using addFiles_rows [OF a] by blast
  have "map fileKey (hashedRows (conversationFiles db'))
          = map fileKey (hashedRows (conversationFiles db)) @ map fileKey (hashedRows newRows)"
    unfolding rows fileKeys_fold_update by (simp add: hashedRows_def)
  moreover have "distinct (map fileKey (hashedRows (conversationFiles db)) @ map fileKey (hashedRows newRows))"
    using u ins by (auto simp: uniqueFileKeys_def filesInsertable_def)
  ultimately show ?thesis by (simp add: uniqueFileKeys_def)
qed

lemma distinct_filter_key_le1:
  "distinct (map f xs) \<Longrightarrow> length (filter (\<lambda>x. f x = k) xs) \<le> 1"
proof (induction xs)
  case Nil
  then show ?case by simp
next
  case (Cons x xs)
  show ?case
  proof (cases "f x = k")
    case True
    have "f y \<noteq> k" if "y \<in> set xs" for y
    proof
      assume "f y = k"
      then have "f x \<in> f ` set xs" using True that by (metis imageI)
      then show False using Cons.prems by simp
    qed
    then have "filter (\<lambda>x. f x = k) xs = []" by (simp add: filter_empty_conv)
    then show ?thesis using True by simp
  next
    case False
    then show ?thesis using Cons by simp
  qed
qed

lemma fileRows_hashed:
  "fileRows db sid h = filter (\<lambda>f. fileKey f = (sid, Some h)) (hashedRows (conversationFiles db))"
  unfolding fileRows_def hashedRows_def filter_filter
  by (rule filter_cong) (auto simp: fileKey_def)

lemma unique_fileRows_le1:
  "uniqueFileKeys db \<Longrightarrow> length (fileRows db sid h) \<le> 1"
  unfolding fileRows_hashed uniqueFileKeys_def by (rule distinct_filter_key_le1)

lemma unique_fileRows_cases:
  assumes "uniqueFileKeys db"
  obtains "fileRows db sid h = []" | e where "fileRows db sid h = [e]"
proof -
  have "length (fileRows db sid h) \<le> 1" using assms by (rule unique_fileRows_le1)
  then have "fileRows db sid h = [] \<or> (\<exists>e. fileRows db sid h = [e])"
    by (cases "fileRows db sid h") (auto simp: length_Suc_conv)
  then show ?thesis using that by blast
qed

lemma existing_select:
  assumes "set hs = {h}"
  shows "filter (\<lambda>f. f_sessionId f = sid \<and> (case contentHash f of Some h' \<Rightarrow> h' \<in> set hs | None \<Rightarrow> False))
      (conversationFiles db) = fileRows db sid h"
  unfolding fileRows_def
  by (rule filter_cong) (auto simp: fileKey_def assms split: option.splits)

lemma filesInsertable_Nil: "filesInsertable db []"
  by (simp add: filesInsertable_def hashedRows_def)

lemma addFiles_single_existing:
  assumes e: "fileRows db sid (H c) = [e]"
  shows "addFiles H db sid [(p, c)] genId tnow =
           Inr (db\<lparr> conversationFiles :=
                  updateFileAccess (f_id e) tnow (accessCount e + 1) (conversationFiles db) \<rparr>)"
proof -
  have "e \<in> set (fileRows db sid (H c))" using e by simp
  then have h: "contentHash e = Some (H c)" by (auto simp: fileRows_def fileKey_def)
  show ?thesis
    unfolding addFiles_def Let_def
    using e h
    by (simp add: filesInsertable_Nil existing_select [where h = "H c"])
qed

lemma addFiles_single_new:
  assumes e: "fileRows db sid (H c) = []"
  shows "addFiles H db sid [(p, c)] genId tnow =
           (if filesInsertable db
                 [\<lparr> f_id = genId 0, f_sessionId = sid, filePath = p, fileContent = Some c,
                    contentHash = Some (H c), addedAt = tnow, lastAccessedAt = tnow,
                    accessCount = 0, isRelevant = Some True \<rparr>]
            then Inr (db\<lparr> conversationFiles := conversationFiles db @
                 [\<lparr> f_id = genId 0, f_sessionId = sid, filePath = p, fileContent = Some c,
                    contentHash = Some (H c), addedAt = tnow, lastAccessedAt = tnow,
                    accessCount = 0, isRelevant = Some True \<rparr>] \<rparr>)
            else Inl ''Failed to add files: constraint failed'')"
  unfolding addFiles_def Let_def
  using e
  by (simp add: existing_select [where h = "H c"])

lemma filter_updateFileAccess:
  "filter (\<lambda>f. fileKey f = k) (updateFileAccess i tnow n rows)
     = updateFileAccess i tnow n (filter (\<lambda>f. fileKey f = k) rows)"
  by (induction rows) (auto simp: updateFileAccess_def fileKey_def)

lemma addFiles_first_call:
  assumes u: "uniqueFileKeys db"
    and a: "addFiles H db sid [(p, c)] genId tnow = Inr db1"
  shows "\<exists>r1. fileRows db1 sid (H c) = [r1] \<and> lastAccessedAt r1 = tnow"
proof (rule unique_fileRows_cases [OF u, of sid "H c"])
  assume n: "fileRows db sid (H c) = []"
  let ?row = "\<lparr> f_id = genId 0, f_sessionId = sid, filePath = p, fileContent = Some c,
                    contentHash = Some (H c), addedAt = tnow, lastAccessedAt = tnow,
                    accessCount = 0, isRelevant = Some True \<rparr>"
  have "db1 = db\<lparr> conversationFiles := conversationFiles db @ [?row] \<rparr>"
    using a unfolding addFiles_single_new [where H = H and c = c, OF n] by (simp split: if_splits)
  then have "fileRows db1 sid (H c) = [?row]"
    using n by (simp add: fileRows_def fileKey_def)
  then show ?thesis by simp
next
  fix e assume e: "fileRows db sid (H c) = [e]"
  have "db1 = db\<lparr> conversationFiles :=
                  updateFileAccess (f_id e) tnow (accessCount e + 1) (conversationFiles db) \<rparr>"
    using a unfolding addFiles_single_existing [where H = H and c = c, OF e] by simp
  then have "fileRows db1 sid (H c) = updateFileAccess (f_id e) tnow (accessCount e + 1) [e]"
    using e by (simp add: fileRows_def filter_updateFileAccess)
  then show ?thesis by (simp add: updateFileAccess_def)
qed

lemma addFiles_second_call:
  assumes r: "fileRows db1 sid (H c) = [r1]"
  shows "\<exists>db2 r2. addFiles H db1 sid [(p, c)] genId tnow = Inr db2
           \<and> fileRows db2 sid (H c) = [r2]
           \<and> length (conversationFiles db2) = length (conversationFiles db1)
           \<and> accessCount r2 = accessCount r1 + 1
           \<and> lastAccessedAt r2 = tnow"
proof -
  let ?db2 = "db1\<lparr> conversationFiles :=
                  updateFileAccess (f_id r1) tnow (accessCount r1 + 1) (conversationFiles db1) \<rparr>"
  have "fileRows ?db2 sid (H c) = updateFileAccess (f_id r1) tnow (accessCount r1 + 1) [r1]"
    using r by (simp add: fileRows_def filter_updateFileAccess)
  then have "fileRows ?db2 sid (H c) = [r1\<lparr> lastAccessedAt := tnow, accessCount := accessCount r1 + 1 \<rparr>]"
    by (simp add: updateFileAccess_def)
  moreover have "length (conversationFiles ?db2) = length (conversationFiles db1)"
    by (simp add: updateFileAccess_def)
  ultimately show ?thesis
    using addFiles_single_existing [where H = H and c = c, OF r, of p genId tnow] by auto
qed

lemma example_unique: "uniqueFileKeys exampleDb"
  by (simp add: uniqueFileKeys_def exampleDb_def hashedRows_def)

lemma example_first_call:
  "addFiles toyHash exampleDb ''s1'' [(''/x.ts'', ''HELLO'')] (\<lambda>k. ''f-1'') 10 = Inr exampleDb1"
  by (simp add: addFiles_def Let_def exampleDb_def exampleDb1_def helloRow_def toyHash_def
        filesInsertable_def hashedRows_def fileKey_def sessionExists_def)

lemma example_rows1: "fileRows exampleDb1 ''s1'' (toyHash ''HELLO'') = [helloRow]"
  by (simp add: fileRows_def exampleDb1_def helloRow_def toyHash_def fileKey_def)

text \<open>
  C9. For every session \<open>S\<close> and file \<open>f\<close>, in a database that respects the unique index on
  \<open>(sessionId, contentHash)\<close>: when \<open>addFiles(S, [f])\<close> has succeeded, a second
  \<open>addFiles(S, [f])\<close> succeeds too and leaves exactly one row for \<open>f\<close>'s content hash in \<open>S\<close>,
  the row count unchanged, that row's \<open>accessCount\<close> incremented by exactly 1 and its
  \<open>lastAccessedAt\<close> set to the time of the second call, which is no earlier than the first
  call's on a clock that does not run backwards. More generally every successful
  \<open>addFiles\<close> preserves the unique index, under which \<open>(sessionId, contentHash)\<close> identifies
  at most one row.
\<close>

theorem addFiles_twice:
  "(uniqueFileKeys db \<and> addFiles H db sid [(p, c)] g1 t1 = Inr db1 \<and> t1 \<le> t2 \<longrightarrow>
      (\<exists>db2 r1 r2. addFiles H db1 sid [(p, c)] g2 t2 = Inr db2
         \<and> fileRows db1 sid (H c) = [r1] \<and> fileRows db2 sid (H c) = [r2]
         \<and> length (conversationFiles db2) = length (conversationFiles db1)
         \<and> accessCount r2 = accessCount r1 + 1
         \<and> lastAccessedAt r1 = t1 \<and> lastAccessedAt r2 = t2
         \<and> lastAccessedAt r1 \<le> lastAccessedAt r2))
   \<and> (uniqueFileKeys db \<and> addFiles H db sid files g t = Inr db' \<longrightarrow> uniqueFileKeys db')
   \<and> (uniqueFileKeys db \<longrightarrow> length (fileRows db sid h) \<le> 1)"
proof (intro conjI impI)
  assume a: "uniqueFileKeys db \<and> addFiles H db sid [(p, c)] g1 t1 = Inr db1 \<and> t1 \<le> t2"
  then obtain r1 where r1: "fileRows db1 sid (H c) = [r1]" "lastAccessedAt r1 = t1"
    using addFiles_first_call by blast
  obtain db2 r2 where "addFiles H db1 sid [(p, c)] g2 t2 = Inr db2"
      "fileRows db2 sid (H c) = [r2]"
      "length (conversationFiles db2) = length (conversationFiles db1)"
      "accessCount r2 = accessCount r1 + 1" "lastAccessedAt r2 = t2"
    using addFiles_second_call [where H = H and c = c, OF r1(1), of p g2 t2] by blast
  then show "\<exists>db2 r1 r2. addFiles H db1 sid [(p, c)] g2 t2 = Inr db2
         \<and> fileRows db1 sid (H c) = [r1] \<and> fileRows db2 sid (H c) = [r2]
         \<and> length (conversationFiles db2) = length (conversationFiles db1)
         \<and> accessCount r2 = accessCount r1 + 1
         \<and> lastAccessedAt r1 = t1 \<and> lastAccessedAt r2 = t2
         \<and> lastAccessedAt r1 \<le> lastAccessedAt r2"
    using r1 a by blast
next
  assume "uniqueFileKeys db \<and> addFiles H db sid files g t = Inr db'"
  then show "uniqueFileKeys db'" using addFiles_preserves_unique by blast
next
  assume "uniqueFileKeys db"
  then show "length (fileRows db sid h) \<le> 1" by (rule unique_fileRows_le1)
qed

theorem addFiles_twice_witness:
  "uniqueFileKeys exampleDb
   \<and> addFiles toyHash exampleDb ''s1'' [(''/x.ts'', ''HELLO'')] (\<lambda>k. ''f-1'') 10 = Inr exampleDb1
   \<and> (10::int) \<le> 20
   \<and> (\<exists>db2 r2. addFiles toyHash exampleDb1 ''s1'' [(''/x.ts'', ''HELLO'')] (\<lambda>k. ''f-2'') 20 = Inr db2
         \<and> fileRows db2 ''s1'' (toyHash ''HELLO'') = [r2]
         \<and> length (conversationFiles db2) = 1
         \<and> accessCount r2 = 1 \<and> lastAccessedAt r2 = 20)"
proof -
  have len: "length (conversationFiles exampleDb1) = 1" by (simp add: exampleDb1_def)
  have ac: "accessCount helloRow = 0" by (simp add: helloRow_def)
  show ?thesis
    using addFiles_twice [of exampleDb toyHash "''s1''" "''/x.ts''" "''HELLO''" "\<lambda>k. ''f-1''" 10
        exampleDb1 20 "\<lambda>k. ''f-2''" "[]" "\<lambda>k. ''f-1''" 10 exampleDb "toyHash ''HELLO''"]
      example_unique example_first_call example_rows1 len ac
    by auto
qed

text \<open>A call with \<open>maxTokens = 0\<close> takes the branch of a call without \<open>maxTokens\<close>.\<close>

lemma getConversationContext_zero_limit:
  "getConversationContext tk mulFloor db sid (Some 0) inc m
     = getConversationContext tk mulFloor db sid None inc m"
  by (simp add: getConversationContext_def Let_def)

text \<open>
  C8. \<open>getConversationContext\<close> evaluated with \<open>maxTokens = 0\<close> on a session that holds one
  message and one relevant file, 16 tokens in all: the positive total exceeds the limit of
  zero, yet the message list and the file list come back unpruned, where the claim has
  both empty. The pruning functions themselves, called with the budget
  \<open>Math.floor(0 * RATIO) = 0\<close>, return the empty lists: only the test
  \<^verbatim>\<open>maxTokens && \<dots>\<close> keeps the call from reaching them.
\<close>

theorem getConversationContext_zero_limit_unpruned:
  "ctx_messages (getConversationContext toyTk mulFloor contextDb ''s1'' (Some 0) True ''gpt-4'')
      = [messageA]
   \<and> map cf_row (ctx_files
         (getConversationContext toyTk mulFloor contextDb ''s1'' (Some 0) True ''gpt-4''))
       = [helloRow]
   \<and> ctx_totalTokens
         (getConversationContext toyTk mulFloor contextDb ''s1'' (Some 0) True ''gpt-4'') = 16
   \<and> pruneMessages toyTk [messageA] 0 ''gpt-4'' = []
   \<and> pruneFiles toyTk [\<lparr> cf_row = helloRow, cf_content = Some ''HELLO'' \<rparr>] 0 ''gpt-4'' = []"
  by (simp add: getConversationContext_def Let_def sessionMessages_def contextDb_def exampleDb1_def
        exampleDb_def messageA_def helloRow_def countMessageTokens_def countTokens_def toyTk_def
        fileText_def truthyStr_def pruneMessages_def pruneFiles_def)

text \<open>
  C10. \<open>checkBudgetLimits\<close> treats reaching a limit as exceeding it: for a session with a
  budget row \<open>b\<close>, each exceeded flag is true iff the corresponding maximum is set and the
  used counter is greater than or equal to it; \<open>withinLimits\<close> is the conjunction of the
  three negated flags; for a session without a budget row all three flags are false and
  \<open>withinLimits\<close> is true.
\<close>

theorem checkBudgetLimits_flags:
  "(find (\<lambda>b. b_sessionId b = s) budgets = Some b \<longrightarrow>
      tokenLimitExceeded (checkBudgetLimits budgets s) = (\<exists>m. maxTokens b = Some m \<and> usedTokens b \<ge> m)
    \<and> costLimitExceeded (checkBudgetLimits budgets s) = (\<exists>m. maxCostUsd b = Some m \<and> usedCostUsd b \<ge> m)
    \<and> durationLimitExceeded (checkBudgetLimits budgets s) =
        (\<exists>m. maxDurationMs b = Some m \<and> usedDurationMs b \<ge> m))
   \<and> withinLimits (checkBudgetLimits budgets s) =
       (\<not> tokenLimitExceeded (checkBudgetLimits budgets s)
        \<and> \<not> costLimitExceeded (checkBudgetLimits budgets s)
        \<and> \<not> durationLimitExceeded (checkBudgetLimits budgets s))
   \<and> (find (\<lambda>b. b_sessionId b = s) budgets = None \<longrightarrow>
        \<not> tokenLimitExceeded (checkBudgetLimits budgets s)
      \<and> \<not> costLimitExceeded (checkBudgetLimits budgets s)
      \<and> \<not> durationLimitExceeded (checkBudgetLimits budgets s)
      \<and> withinLimits (checkBudgetLimits budgets s))"
  by (auto simp: checkBudgetLimits_def Let_def split: option.splits)

theorem checkBudgetLimits_flags_witness:
  "find (\<lambda>b. b_sessionId b = ''s1'') [budgetAtLimit] = Some budgetAtLimit
   \<and> find (\<lambda>b. b_sessionId b = ''s2'') [budgetAtLimit] = None
   \<and> usedTokens budgetAtLimit = 100 \<and> maxTokens budgetAtLimit = Some 100
   \<and> tokenLimitExceeded (checkBudgetLimits [budgetAtLimit] ''s1'')
   \<and> \<not> costLimitExceeded (checkBudgetLimits [budgetAtLimit] ''s1'')
   \<and> \<not> durationLimitExceeded (checkBudgetLimits [budgetAtLimit] ''s1'')
   \<and> \<not> withinLimits (checkBudgetLimits [budgetAtLimit] ''s1'')
   \<and> withinLimits (checkBudgetLimits [budgetAtLimit] ''s2'')"
  using checkBudgetLimits_flags [of "''s1''" "[budgetAtLimit]" budgetAtLimit]
    checkBudgetLimits_flags [of "''s2''" "[budgetAtLimit]" budgetAtLimit]
  by (simp add: budgetAtLimit_def)

end
